theory Spec2Isabelle
  imports Main
begin

section \<open>JavaScript values as the server sees them\<close>

text \<open>
  Every value the handlers of \<^verbatim>\<open>server.js\<close> touch comes out of \<^verbatim>\<open>JSON.parse\<close>
  (the request body, the session identity, \<^verbatim>\<open>users.json\<close>) or is a string or array
  literal of the program. A JSON value is a \<open>json\<close>; a JavaScript value is a
  \<open>json option\<close>, where \<open>None\<close> is \<^verbatim>\<open>undefined\<close> (a property that is not there).
  An object is the list of its own properties, each key once. A string is the sequence
  of its bytes in UTF-8: the program compares strings, joins them and tests them and
  their \<^verbatim>\<open>length\<close> for emptiness, and none of these depends on the encoding.

  A number is an IEEE double, and \<open>JNum t\<close> is the double that \<^verbatim>\<open>String\<close> prints as
  \<open>t\<close>: \<open>JNum ''2''\<close>, \<open>JNum ''-1.5''\<close>, \<open>JNum ''1e+21''\<close>, and \<open>JNum ''Infinity''\<close>
  for what \<^verbatim>\<open>JSON.parse\<close> makes of \<^verbatim>\<open>1e400\<close>. The print fixes the double up to the
  sign of zero, and the program sees no more of a number than its print, whether it is
  zero and whether it is finite (it computes with none; \<^verbatim>\<open>NaN\<close> does not come out of
  \<^verbatim>\<open>JSON.parse\<close>). A decimal that no double prints as, such as an integer beyond
  \<open>2\<^sup>5\<^sup>3\<close> that is not a double, stands for no number: the text is parsed to
  the nearest double before the program sees it.
\<close>

datatype error = TypeError

datatype json =
    JNull
  | JBool bool
  | JNum string
  | JStr string
  | JArr "json list"
  | JObj "(string \<times> json) list"

type_synonym jsval = "json option"

text \<open>\<^verbatim>\<open>!v\<close> is \<open>\<not> truthy v\<close>: undefined, null, false, zero (which prints as
  \<^verbatim>\<open>0\<close>, whatever its sign) and the empty string are falsy.\<close>

fun truthy :: "jsval \<Rightarrow> bool" where
  "truthy None = False"
| "truthy (Some JNull) = False"
| "truthy (Some (JBool b)) = b"
| "truthy (Some (JNum t)) = (t \<noteq> ''0'')"
| "truthy (Some (JStr s)) = (s \<noteq> [])"
| "truthy (Some (JArr xs)) = True"
| "truthy (Some (JObj kvs)) = True"

text \<open>\<^verbatim>\<open>a || b\<close> and \<^verbatim>\<open>a && b\<close>; both return one of their operands.\<close>

definition js_or :: "jsval \<Rightarrow> jsval \<Rightarrow> jsval" where
  "js_or a b = (if truthy a then a else b)"

definition js_and :: "jsval \<Rightarrow> jsval \<Rightarrow> jsval" where
  "js_and a b = (if truthy a then b else a)"

text \<open>Reading a property of null or undefined throws a TypeError.\<close>

fun nullish :: "jsval \<Rightarrow> bool" where
  "nullish None = True"
| "nullish (Some JNull) = True"
| "nullish (Some v) = False"

text \<open>The print of a natural number below \<open>10\<^sup>2\<^sup>1\<close>, its decimal digits: as
  \<^verbatim>\<open>Date.now().toString()\<close> and \<^verbatim>\<open>'ORD-' + Date.now()\<close> print the clock, and the
  print of the length of an array or a string.\<close>

definition digit_char :: "nat \<Rightarrow> char" where
  "digit_char d = ''0123456789'' ! d"

fun string_of_nat :: "nat \<Rightarrow> string" where
  "string_of_nat n =
     (if n < 10 then [digit_char n] else string_of_nat (n div 10) @ [digit_char (n mod 10)])"

declare string_of_nat.simps [simp del]

text \<open>
  \<^verbatim>\<open>v.k\<close> for the property names the program reads (\<^verbatim>\<open>profile\<close>, \<^verbatim>\<open>emails\<close>,
  \<^verbatim>\<open>value\<close>, \<^verbatim>\<open>email\<close>, \<^verbatim>\<open>id\<close>, \<^verbatim>\<open>_id\<close>, \<^verbatim>\<open>displayName\<close>, \<^verbatim>\<open>name\<close>,
  \<^verbatim>\<open>username\<close>, \<^verbatim>\<open>cart\<close>, \<^verbatim>\<open>length\<close>): an object gives its own property, an
  array and a string have \<^verbatim>\<open>length\<close>, a number and a boolean have none of them.
  On null and undefined JavaScript throws; the program reads a property only of a
  value it has tested to be truthy, except where the model checks \<open>nullish\<close>.
\<close>

fun getp :: "jsval \<Rightarrow> string \<Rightarrow> jsval" where
  "getp (Some (JObj kvs)) k = map_of kvs k"
| "getp (Some (JArr xs)) k =
     (if k = ''length'' then Some (JNum (string_of_nat (length xs))) else None)"
| "getp (Some (JStr s)) k =
     (if k = ''length'' then Some (JNum (string_of_nat (length s))) else None)"
| "getp v k = None"

text \<open>\<^verbatim>\<open>v[0]\<close>: the first element of an array, the first character of a string (here
  its first byte: the program only tests it and reads its \<^verbatim>\<open>value\<close>, which a string
  has not), the property \<^verbatim>\<open>"0"\<close> of an object.\<close>

fun get0 :: "jsval \<Rightarrow> jsval" where
  "get0 (Some (JArr (x # xs))) = Some x"
| "get0 (Some (JStr (c # cs))) = Some (JStr [c])"
| "get0 (Some (JObj kvs)) = map_of kvs ''0''"
| "get0 v = None"

text \<open>
  \<^verbatim>\<open>a === b\<close>. Primitives are compared by value (two numbers are the same when
  their prints are). Arrays and objects are compared by
  reference, and in every comparison of the program one side was parsed from
  \<^verbatim>\<open>users.json\<close> in this request and the other came with the request, so two
  arrays or objects are never the same reference.
\<close>

fun strict_eq :: "jsval \<Rightarrow> jsval \<Rightarrow> bool" where
  "strict_eq None None = True"
| "strict_eq (Some JNull) (Some JNull) = True"
| "strict_eq (Some (JBool a)) (Some (JBool b)) = (a = b)"
| "strict_eq (Some (JNum a)) (Some (JNum b)) = (a = b)"
| "strict_eq (Some (JStr a)) (Some (JStr b)) = (a = b)"
| "strict_eq a b = False"

definition join_comma :: "string list \<Rightarrow> string" where
  "join_comma ss = concat (case ss of [] \<Rightarrow> [] | s # rest \<Rightarrow> s # map (\<lambda>t. '','' @ t) rest)"

text \<open>
  \<^verbatim>\<open>String(v)\<close>, which can throw. A number is its print. An array is its elements
  joined by commas, null elements printing as nothing and the others by \<^verbatim>\<open>String\<close>.
  An object is converted by its \<^verbatim>\<open>toString\<close> method: a parsed object with no own
  \<^verbatim>\<open>toString\<close> property inherits the one that prints \<^verbatim>\<open>[object Object]\<close>; with an
  own \<^verbatim>\<open>toString\<close> property, which is no function, no method gives a primitive and
  the conversion throws a TypeError.
\<close>

fun collect :: "(error + 'a) list \<Rightarrow> error + 'a list" where
  "collect [] = Inr []"
| "collect (Inl e # rs) = Inl e"
| "collect (Inr a # rs) = (case collect rs of Inl e \<Rightarrow> Inl e | Inr as \<Rightarrow> Inr (a # as))"

fun json_String :: "json \<Rightarrow> error + string" where
  "json_String JNull = Inr ''null''"
| "json_String (JBool b) = Inr (if b then ''true'' else ''false'')"
| "json_String (JNum t) = Inr t"
| "json_String (JStr s) = Inr s"
| "json_String (JArr xs) =
     (case collect (map (\<lambda>x. if x = JNull then Inr [] else json_String x) xs) of
        Inl e \<Rightarrow> Inl e
      | Inr ss \<Rightarrow> Inr (join_comma ss))"
| "json_String (JObj kvs) =
     (if map_of kvs ''toString'' = None then Inr ''[object Object]'' else Inl TypeError)"

definition js_String :: "jsval \<Rightarrow> error + string" where
  "js_String v = (case v of None \<Rightarrow> Inr ''undefined'' | Some j \<Rightarrow> json_String j)"

text \<open>
  \<^verbatim>\<open>JSON.parse(JSON.stringify(v))\<close>: what is read back of a value that was written.
  \<^verbatim>\<open>JSON.stringify\<close> writes a number that is not finite as \<^verbatim>\<open>null\<close> and every
  other value as a text that parses to it again.
\<close>

fun reparse :: "json \<Rightarrow> json" where
  "reparse (JNum t) = (if t = ''Infinity'' \<or> t = ''-Infinity'' then JNull else JNum t)"
| "reparse (JArr xs) = JArr (map reparse xs)"
| "reparse (JObj kvs) = JObj (map (\<lambda>kv. (fst kv, reparse (snd kv))) kvs)"
| "reparse v = v"

text \<open>\<^verbatim>\<open>Array.isArray(v)\<close>.\<close>

fun isArray :: "jsval \<Rightarrow> bool" where
  "isArray (Some (JArr xs)) = True"
| "isArray v = False"

section \<open>The user store: \<^verbatim>\<open>users.json\<close>\<close>

text \<open>
  A user record has the five properties the program reads and writes; a property that
  is absent is \<open>None\<close>. The property \<^verbatim>\<open>id\<close> is the field \<open>uid\<close> here (\<open>id\<close> is
  the identity function of HOL).
\<close>

record user_record =
  uid :: jsval
  name :: jsval
  email :: jsval
  password :: jsval
  cart :: jsval

text \<open>\<^verbatim>\<open>JSON.parse(JSON.stringify(u))\<close> for a record: each property that is there is
  read back as its \<open>reparse\<close>.\<close>

definition reparse_user :: "user_record \<Rightarrow> user_record" where
  "reparse_user u =
     \<lparr>uid = map_option reparse (uid u), name = map_option reparse (name u),
      email = map_option reparse (email u), password = map_option reparse (password u),
      cart = map_option reparse (cart u)\<rparr>"

text \<open>
  The file \<^verbatim>\<open>users.json\<close> is absent, or holds text that is empty or that
  \<^verbatim>\<open>JSON.parse\<close> rejects, or holds the text \<^verbatim>\<open>JSON.stringify(us, null, 2)\<close> of an
  array \<open>us\<close> of records: \<open>Users us\<close> (what the program itself writes, and its
  \<^verbatim>\<open>'[]'\<close>). Reading the file parses that text. The file system is taken to be
  reliable: reads and writes do not fail. \<open>writes\<close> counts the calls of
  \<^verbatim>\<open>fs.writeFile\<close> so far.
\<close>

datatype file_content = NoFile | Unparsable | Users "user_record list"

record fs =
  users_json :: file_content
  writes :: nat

definition ensureUsersFile :: "fs \<Rightarrow> fs" where
  "ensureUsersFile s =
     (case users_json s of
        NoFile \<Rightarrow> s\<lparr>users_json := Users [], writes := Suc (writes s)\<rparr>
      | _ \<Rightarrow> s)"

definition readUsers :: "fs \<Rightarrow> fs \<times> user_record list" where
  "readUsers s =
     (let s1 = ensureUsersFile s
      in (s1, case users_json s1 of Users us \<Rightarrow> map reparse_user us | _ \<Rightarrow> []))"

text \<open>\<^verbatim>\<open>writeUsers(users)\<close> writes the text \<^verbatim>\<open>JSON.stringify(users, null, 2)\<close>: the file
  then holds \<open>Users users\<close>, and what a later read returns is that text parsed,
  \<open>map reparse_user users\<close>, not the array \<open>users\<close> that was in memory.\<close>

definition writeUsers :: "user_record list \<Rightarrow> fs \<Rightarrow> fs" where
  "writeUsers us s = s\<lparr>users_json := Users us, writes := Suc (writes s)\<rparr>"

text \<open>What a read of the store returns: the persisted array of records, as it is parsed
  from the file.\<close>

definition stored :: "fs \<Rightarrow> user_record list" where
  "stored s = (case users_json s of Users us \<Rightarrow> map reparse_user us | _ \<Rightarrow> [])"

text \<open>\<^verbatim>\<open>xs.findIndex(p)\<close>; \<open>None\<close> is the result \<^verbatim>\<open>-1\<close>.\<close>

fun findIndex :: "('a \<Rightarrow> bool) \<Rightarrow> 'a list \<Rightarrow> nat option" where
  "findIndex p [] = None"
| "findIndex p (x # xs) = (if p x then Some 0 else map_option Suc (findIndex p xs))"

text \<open>The same with a callback that can throw: the search stops at the first element
  on which the callback throws or is true.\<close>

fun findIndex_throwing :: "('a \<Rightarrow> error + bool) \<Rightarrow> 'a list \<Rightarrow> error + nat option" where
  "findIndex_throwing p [] = Inr None"
| "findIndex_throwing p (x # xs) =
     (case p x of
        Inl e \<Rightarrow> Inl e
      | Inr True \<Rightarrow> Inr (Some 0)
      | Inr False \<Rightarrow>
          (case findIndex_throwing p xs of Inl e \<Rightarrow> Inl e | Inr r \<Rightarrow> Inr (map_option Suc r)))"

section \<open>Identity-to-record resolution\<close>

record resolved =
  user :: user_record
  users :: "user_record list"
  index :: nat

text \<open>Lines 100 to 102 of \<^verbatim>\<open>getOrCreateUserRecord\<close>.\<close>

definition profile_of :: "jsval \<Rightarrow> jsval" where
  "profile_of sessionUser =
     (if truthy (js_and sessionUser (getp sessionUser ''profile''))
      then getp sessionUser ''profile'' else sessionUser)"

definition email_of :: "jsval \<Rightarrow> jsval" where
  "email_of profile =
     js_or (js_and profile
              (js_or (js_and (js_and (getp profile ''emails'') (get0 (getp profile ''emails'')))
                             (getp (get0 (getp profile ''emails'')) ''value''))
                     (getp profile ''email'')))
           (Some (JStr []))"

definition profileId_of :: "jsval \<Rightarrow> jsval" where
  "profileId_of profile =
     js_or (js_and profile (js_or (getp profile ''id'') (getp profile ''_id'')))
           (Some (JStr []))"

text \<open>
  The record of lines 108 to 114; \<open>now\<close> is \<^verbatim>\<open>Date.now()\<close>. Its id is evaluated
  first (line 109), and \<^verbatim>\<open>String(profileId)\<close> can throw.
\<close>

definition newRec_id :: "nat \<Rightarrow> jsval \<Rightarrow> error + string" where
  "newRec_id now profile =
     (if truthy (profileId_of profile) then js_String (profileId_of profile)
      else Inr (string_of_nat now))"

definition newRec :: "string \<Rightarrow> jsval \<Rightarrow> user_record" where
  "newRec i profile =
     \<lparr>uid = Some (JStr i),
      name = js_or (js_or (js_or (getp profile ''displayName'') (getp profile ''name''))
                          (getp profile ''username''))
                   (Some (JStr ''User'')),
      email = js_or (email_of profile) (Some (JStr [])),
      password = Some (JStr []),
      cart = Some (JArr [])\<rparr>"

text \<open>
  Lines 104 to 106: the search by email, then by stringified id. The callback of the
  second search is \<^verbatim>\<open>String(u.id) === String(profileId)\<close> and throws when one of the
  two conversions does.
\<close>

definition id_matches :: "jsval \<Rightarrow> user_record \<Rightarrow> error + bool" where
  "id_matches profileId u =
     (case js_String (uid u) of
        Inl e \<Rightarrow> Inl e
      | Inr a \<Rightarrow> (case js_String profileId of Inl e \<Rightarrow> Inl e | Inr b \<Rightarrow> Inr (a = b)))"

definition lookup_idx :: "user_record list \<Rightarrow> jsval \<Rightarrow> error + nat option" where
  "lookup_idx us profile =
     (let idx = (if truthy (email_of profile)
                 then findIndex (\<lambda>u. strict_eq (email u) (email_of profile)) us else None)
      in if idx = None \<and> truthy (profileId_of profile)
         then findIndex_throwing (id_matches (profileId_of profile)) us
         else Inr idx)"

text \<open>
  The state is threaded through: the result carries the file system after the call,
  also when the search throws, when line 109 throws, and when line 110 throws on a null
  or undefined profile. Nothing is pushed or written then.
\<close>

definition getOrCreateUserRecord :: "nat \<Rightarrow> fs \<Rightarrow> jsval \<Rightarrow> fs \<times> (error + resolved)" where
  "getOrCreateUserRecord now s sessionUser =
     (let (s1, us) = readUsers s;
          profile = profile_of sessionUser
      in case lookup_idx us profile of
           Inl e \<Rightarrow> (s1, Inl e)
         | Inr None \<Rightarrow>
             (case newRec_id now profile of
                Inl e \<Rightarrow> (s1, Inl e)
              | Inr i \<Rightarrow>
                  if nullish profile then (s1, Inl TypeError)
                  else let us' = us @ [newRec i profile]
                       in (writeUsers us' s1,
                           Inr \<lparr>user = newRec i profile, users = us',
                                index = length us' - 1\<rparr>))
         | Inr (Some i) \<Rightarrow> (s1, Inr \<lparr>user = us ! i, users = us, index = i\<rparr>))"

section \<open>The handlers\<close>

text \<open>
  A response is its status and the value handed to \<^verbatim>\<open>res.json\<close> (which sends its
  \<^verbatim>\<open>JSON.stringify\<close>). The message texts of the program are named, not spelled. \<^verbatim>\<open>req.body\<close> is the object \<^verbatim>\<open>express.json()\<close> parsed, given by
  its properties (an array body has none of the properties the handlers read, like the
  empty object). Each handler answers 500 from its \<^verbatim>\<open>catch\<close> when something throws;
  with a reliable file system the one thing that can throw is
  \<^verbatim>\<open>getOrCreateUserRecord\<close>, so the handlers of register and login have no such
  branch here.
\<close>

datatype message =
    MissingInfo | EmailExists | LoginAfterRegisterFailed | ServerError
  | BadCredentials | LoginFailed | NotLoggedIn | CartServerError | CartEmpty
  | CheckoutDone | SessionDestroyFailed

datatype body =
    Failure message
  | UserBody user_record
  | CartBody jsval
  | OrderBody string message
  | OkBody

record response =
  status :: nat
  body :: body

type_synonym request_body = "(string \<times> json) list"

definition field :: "request_body \<Rightarrow> string \<Rightarrow> jsval" where
  "field b k = map_of b k"

text \<open>The identity \<^verbatim>\<open>{ provider: 'local', profile: u }\<close> that \<^verbatim>\<open>req.login\<close> stores.\<close>

definition own_prop :: "string \<Rightarrow> jsval \<Rightarrow> (string \<times> json) list" where
  "own_prop k v = (case v of None \<Rightarrow> [] | Some j \<Rightarrow> [(k, j)])"

definition json_of_user :: "user_record \<Rightarrow> json" where
  "json_of_user u =
     JObj (own_prop ''id'' (uid u) @ own_prop ''name'' (name u) @ own_prop ''email'' (email u)
           @ own_prop ''password'' (password u) @ own_prop ''cart'' (cart u))"

definition local_identity :: "user_record \<Rightarrow> jsval" where
  "local_identity u = Some (JObj [(''provider'', JStr ''local''), (''profile'', json_of_user u)])"

text \<open>
  \<^verbatim>\<open>POST /api/register\<close>. \<open>login_err\<close> says whether \<^verbatim>\<open>req.login\<close> calls back with an
  error. The third component is the identity the session carries after the request,
  when the request established one.
\<close>

definition post_register :: "nat \<Rightarrow> bool \<Rightarrow> fs \<Rightarrow> request_body \<Rightarrow> fs \<times> response \<times> jsval" where
  "post_register now login_err s b =
     (if \<not> truthy (field b ''name'') \<or> \<not> truthy (field b ''email'')
         \<or> \<not> truthy (field b ''password'')
      then (s, \<lparr>status = 400, body = Failure MissingInfo\<rparr>, None)
      else let (s1, us) = readUsers s
           in if list_ex (\<lambda>u. strict_eq (email u) (field b ''email'')) us
              then (s1, \<lparr>status = 409, body = Failure EmailExists\<rparr>, None)
              else let newUser = \<lparr>uid = Some (JStr (string_of_nat now)),
                                   name = field b ''name'', email = field b ''email'',
                                   password = field b ''password'', cart = Some (JArr [])\<rparr>;
                       s2 = writeUsers (us @ [newUser]) s1
                   in if login_err
                      then (s2, \<lparr>status = 500, body = Failure LoginAfterRegisterFailed\<rparr>, None)
                      else (s2, \<lparr>status = 200, body = UserBody newUser\<rparr>,
                            local_identity newUser))"

text \<open>\<^verbatim>\<open>POST /api/login\<close>.\<close>

definition post_login :: "bool \<Rightarrow> fs \<Rightarrow> request_body \<Rightarrow> fs \<times> response \<times> jsval" where
  "post_login login_err s b =
     (if \<not> truthy (field b ''email'') \<or> \<not> truthy (field b ''password'')
      then (s, \<lparr>status = 400, body = Failure MissingInfo\<rparr>, None)
      else let (s1, us) = readUsers s
           in case find (\<lambda>u. strict_eq (email u) (field b ''email'')
                              \<and> strict_eq (password u) (field b ''password'')) us of
                None \<Rightarrow> (s1, \<lparr>status = 401, body = Failure BadCredentials\<rparr>, None)
              | Some u \<Rightarrow>
                  if login_err then (s1, \<lparr>status = 500, body = Failure LoginFailed\<rparr>, None)
                  else (s1, \<lparr>status = 200, body = UserBody u\<rparr>, local_identity u))"

text \<open>\<^verbatim>\<open>GET /api/cart\<close>; \<open>req_user\<close> is \<^verbatim>\<open>req.user\<close>.\<close>

definition get_cart :: "nat \<Rightarrow> fs \<Rightarrow> jsval \<Rightarrow> fs \<times> response" where
  "get_cart now s req_user =
     (if \<not> truthy req_user then (s, \<lparr>status = 401, body = Failure NotLoggedIn\<rparr>)
      else case getOrCreateUserRecord now s req_user of
             (s1, Inl e) \<Rightarrow> (s1, \<lparr>status = 500, body = Failure CartServerError\<rparr>)
           | (s1, Inr r) \<Rightarrow>
               (s1, \<lparr>status = 200, body = CartBody (js_or (cart (user r)) (Some (JArr [])))\<rparr>))"

text \<open>\<^verbatim>\<open>POST /api/cart\<close>: \<open>newCart\<close> is the submitted cart when that is an array and
  the empty array otherwise; the record at the resolved index gets it, and the whole
  array is written.\<close>

definition newCart :: "request_body \<Rightarrow> jsval" where
  "newCart b = (if isArray (field b ''cart'') then field b ''cart'' else Some (JArr []))"

definition post_cart :: "nat \<Rightarrow> fs \<Rightarrow> jsval \<Rightarrow> request_body \<Rightarrow> fs \<times> response" where
  "post_cart now s req_user b =
     (if \<not> truthy req_user then (s, \<lparr>status = 401, body = Failure NotLoggedIn\<rparr>)
      else case getOrCreateUserRecord now s req_user of
             (s1, Inl e) \<Rightarrow> (s1, \<lparr>status = 500, body = Failure CartServerError\<rparr>)
           | (s1, Inr r) \<Rightarrow>
               let us' = (users r)[index r := (users r ! index r)\<lparr>cart := newCart b\<rparr>]
               in (writeUsers us' s1,
                   \<lparr>status = 200, body = CartBody (cart (us' ! index r))\<rparr>))"

text \<open>\<^verbatim>\<open>POST /api/checkout\<close>.\<close>

definition post_checkout :: "nat \<Rightarrow> fs \<Rightarrow> jsval \<Rightarrow> fs \<times> response" where
  "post_checkout now s req_user =
     (if \<not> truthy req_user then (s, \<lparr>status = 401, body = Failure NotLoggedIn\<rparr>)
      else case getOrCreateUserRecord now s req_user of
             (s1, Inl e) \<Rightarrow> (s1, \<lparr>status = 500, body = Failure CartServerError\<rparr>)
           | (s1, Inr r) \<Rightarrow>
               let c = js_or (cart (users r ! index r)) (Some (JArr []))
               in if \<not> truthy (getp c ''length'')
                  then (s1, \<lparr>status = 400, body = Failure CartEmpty\<rparr>)
                  else let orderId = ''ORD-'' @ string_of_nat now;
                           us' = (users r)[index r := (users r ! index r)\<lparr>cart := Some (JArr [])\<rparr>]
                       in (writeUsers us' s1,
                           \<lparr>status = 200, body = OrderBody orderId CheckoutDone\<rparr>))"

text \<open>
  \<^verbatim>\<open>POST /api/logout\<close>. \<open>logout_err\<close> and \<open>destroy_err\<close> say whether \<^verbatim>\<open>req.logout\<close> and
  \<^verbatim>\<open>req.session.destroy\<close> call back with an error, \<open>has_session\<close> whether
  \<^verbatim>\<open>req.session\<close> is there. The handler either hands the error on with
  \<^verbatim>\<open>next(err)\<close> or replies; \<open>cookie_cleared\<close> says whether the reply carries
  \<^verbatim>\<open>res.clearCookie(sessionName)\<close>.
\<close>

record logout_reply =
  lstatus :: nat
  lbody :: body
  cookie_cleared :: bool

datatype logout_result = Next | Replied logout_reply

text \<open>The handler of \<^verbatim>\<open>server.js\<close>: the callback of \<^verbatim>\<open>destroy\<close> takes no argument,
  and \<^verbatim>\<open>req.session\<close> is read without a test (the session middleware sets it).\<close>

definition post_logout :: "bool \<Rightarrow> bool \<Rightarrow> logout_result" where
  "post_logout logout_err destroy_err =
     (if logout_err then Next
      else Replied \<lparr>lstatus = 200, lbody = OkBody, cookie_cleared = False\<rparr>)"

text \<open>The handler of the second server file (\<^verbatim>\<open>src/unnamed/part_000\<close>).\<close>

definition post_logout_part_000 :: "bool \<Rightarrow> bool \<Rightarrow> bool \<Rightarrow> logout_result" where
  "post_logout_part_000 logout_err has_session destroy_err =
     (if logout_err then Next
      else if has_session
      then (if destroy_err
            then Replied \<lparr>lstatus = 500, lbody = Failure SessionDestroyFailed,
                          cookie_cleared = True\<rparr>
            else Replied \<lparr>lstatus = 200, lbody = OkBody, cookie_cleared = True\<rparr>)
      else Replied \<lparr>lstatus = 200, lbody = OkBody, cookie_cleared = True\<rparr>)"

section \<open>The properties the specification speaks about\<close>

text \<open>
  The uniqueness invariant of the store as the specification words it: each non-empty
  email occurs in at most one record, whatever kind of value the email is.
\<close>

definition nonempty_email :: "user_record \<Rightarrow> jsval list" where
  "nonempty_email u = (if truthy (email u) then [email u] else [])"

definition unique_nonempty_emails :: "user_record list \<Rightarrow> bool" where
  "unique_nonempty_emails us = distinct (concat (map nonempty_email us))"

text \<open>
  The invariant that the program keeps: each non-empty email that is a primitive value
  (a string, a number, \<^verbatim>\<open>true\<close>) occurs in at most one record. A primitive is a value
  that is \<^verbatim>\<open>===\<close> to itself when it is parsed a second time.
\<close>

definition primitive :: "jsval \<Rightarrow> bool" where
  "primitive v = strict_eq v v"

definition primitive_email :: "user_record \<Rightarrow> jsval list" where
  "primitive_email u = (if truthy (email u) \<and> primitive (email u) then [email u] else [])"

definition unique_emails :: "user_record list \<Rightarrow> bool" where
  "unique_emails us = distinct (concat (map primitive_email us))"

text \<open>The pattern \<^verbatim>\<open>ORD-<digits>\<close> of an order identifier.\<close>

definition is_digit :: "char \<Rightarrow> bool" where
  "is_digit c = (c \<in> set ''0123456789'')"

definition order_id_pattern :: "string \<Rightarrow> bool" where
  "order_id_pattern t = (take 4 t = ''ORD-'' \<and> drop 4 t \<noteq> [] \<and> list_all is_digit (drop 4 t))"

text \<open>
  An identity that the search of \<^verbatim>\<open>getOrCreateUserRecord\<close> can find again: its profile
  has a non-empty id, or a non-empty email that is a primitive value and is read back
  from the file as it was written.
\<close>

definition identifiable :: "jsval \<Rightarrow> bool" where
  "identifiable sessionUser =
     (truthy (profileId_of (profile_of sessionUser))
      \<or> (truthy (email_of (profile_of sessionUser))
          \<and> primitive (email_of (profile_of sessionUser))
          \<and> map_option reparse (email_of (profile_of sessionUser))
              = email_of (profile_of sessionUser)))"

text \<open>Some stored record matches the submitted email and password, both by \<^verbatim>\<open>===\<close>
  (on strings: the same string).\<close>

definition credentials_match :: "fs \<Rightarrow> request_body \<Rightarrow> bool" where
  "credentials_match s b =
     list_ex (\<lambda>u. strict_eq (email u) (field b ''email'')
                  \<and> strict_eq (password u) (field b ''password'')) (stored s)"

section \<open>Example requests\<close>

text \<open>A Google identity as the strategy callback builds it, an identity whose profile
  has neither id nor email, and one whose id is the object \<^verbatim>\<open>{"toString": 1}\<close>.\<close>

definition ann_identity :: jsval where
  "ann_identity =
     Some (JObj [(''provider'', JStr ''google''),
                 (''profile'', JObj [(''id'', JStr ''g1''), (''displayName'', JStr ''Ann''),
                                     (''emails'', JArr [JObj [(''value'', JStr ''ann@x.org'')]])]),
                 (''accessToken'', JStr ''t'')])"

definition keyless_identity :: jsval where
  "keyless_identity =
     Some (JObj [(''provider'', JStr ''discord''),
                 (''profile'', JObj [(''username'', JStr ''bob'')])])"

definition odd_identity :: jsval where
  "odd_identity =
     Some (JObj [(''provider'', JStr ''custom''),
                 (''profile'', JObj [(''id'', JObj [(''toString'', JNum ''1'')])])])"

definition ann_record :: "jsval \<Rightarrow> user_record" where
  "ann_record c =
     \<lparr>uid = Some (JStr ''g1''), name = Some (JStr ''Ann''), email = Some (JStr ''ann@x.org''),
      password = Some (JStr []), cart = c\<rparr>"

definition eve_record :: user_record where
  "eve_record =
     \<lparr>uid = Some (JStr ''1700000000000''), name = Some (JStr ''Eve''),
      email = Some (JStr ''eve@x.org''), password = Some (JStr ''pw''), cart = Some (JArr [])\<rparr>"

text \<open>A Discord identity with an id and a user name and no email, the record that
  \<^verbatim>\<open>getOrCreateUserRecord\<close> creates for it, and a record whose email is an array.\<close>

definition bob_identity :: jsval where
  "bob_identity =
     Some (JObj [(''provider'', JStr ''discord''),
                 (''profile'', JObj [(''id'', JStr ''d7''), (''username'', JStr ''bob'')])])"

definition bob_record :: user_record where
  "bob_record =
     \<lparr>uid = Some (JStr ''d7''), name = Some (JStr ''bob''), email = Some (JStr []),
      password = Some (JStr []), cart = Some (JArr [])\<rparr>"

definition al_record :: user_record where
  "al_record =
     \<lparr>uid = Some (JStr ''1700000000001''), name = Some (JStr ''Al''),
      email = Some (JArr [JStr ''al@x.org'']), password = Some (JStr ''pw''),
      cart = Some (JArr [])\<rparr>"

definition one_item :: json where
  "one_item = JObj [(''sku'', JStr ''A''), (''qty'', JNum ''2'')]"

definition empty_store :: fs where
  "empty_store = \<lparr>users_json = Users [], writes = 0\<rparr>"

definition store_of :: "user_record list \<Rightarrow> fs" where
  "store_of us = \<lparr>users_json = Users us, writes = 0\<rparr>"

section \<open>Facts about the store, the search and the handlers\<close>

subsection \<open>Values\<close>

lemma truthy_not_nullish: "truthy v \<Longrightarrow> \<not> nullish v"
  by (cases v rule: nullish.cases) simp_all

lemma strict_eq_truthy: "strict_eq a b \<Longrightarrow> truthy a = truthy b"
  by (cases "(a, b)" rule: strict_eq.cases) auto

lemma strict_eq_imp_eq: "strict_eq a b \<Longrightarrow> a = b"
  by (cases "(a, b)" rule: strict_eq.cases) auto

lemma strict_eq_JStr: "strict_eq a (Some (JStr t)) \<longleftrightarrow> a = Some (JStr t)"
  by (cases "(a, Some (JStr t))" rule: strict_eq.cases) auto

lemma strict_eq_primitive: "primitive b \<Longrightarrow> strict_eq a b \<longleftrightarrow> a = b"
  unfolding primitive_def using strict_eq_imp_eq by blast

lemma js_String_JStr: "js_String (Some (JStr t)) = Inr t"
  by (simp add: js_String_def)

subsection \<open>Decimal digits\<close>

lemma digit_char_is_digit: "d < 10 \<Longrightarrow> is_digit (digit_char d)"
  unfolding is_digit_def digit_char_def by (rule nth_mem) simp

lemma string_of_nat_digits: "string_of_nat n \<noteq> [] \<and> list_all is_digit (string_of_nat n)"
proof (induction n rule: string_of_nat.induct)
  case (1 n)
  show ?case
  proof (cases "n < 10")
    case True
    then show ?thesis by (subst (1 2) string_of_nat.simps) (simp add: digit_char_is_digit)
  next
    case False
    with 1 have "list_all is_digit (string_of_nat (n div 10))" by simp
    with False show ?thesis by (subst (1 2) string_of_nat.simps) (simp add: digit_char_is_digit)
  qed
qed

lemma order_id_pattern_ORD: "order_id_pattern (''ORD-'' @ string_of_nat n)"
  using string_of_nat_digits[of n] by (simp add: order_id_pattern_def)

text \<open>Only zero prints as \<^verbatim>\<open>0\<close>, so the length of an array is falsy exactly when the
  array is empty.\<close>

lemma digit_char_zero: "d < 10 \<Longrightarrow> digit_char d = CHR ''0'' \<longleftrightarrow> d = 0"
proof -
  have "\<forall>d\<in>set [0..<10]. (digit_char d = CHR ''0'') = (d = 0)"
    by (simp add: digit_char_def upt_rec)
  then show "d < 10 \<Longrightarrow> digit_char d = CHR ''0'' \<longleftrightarrow> d = 0" by simp
qed

lemma string_of_nat_zero: "string_of_nat n = ''0'' \<longleftrightarrow> n = 0"
proof (cases "n < 10")
  case True
  then show ?thesis by (subst string_of_nat.simps) (simp add: digit_char_zero)
next
  case False
  have "string_of_nat (n div 10) \<noteq> []" using string_of_nat_digits by blast
  with False show ?thesis by (subst string_of_nat.simps) auto
qed

lemma truthy_length: "truthy (getp (Some (JArr xs)) ''length'') \<longleftrightarrow> xs \<noteq> []"
  by (simp add: string_of_nat_zero)

subsection \<open>Reading back what was written\<close>

lemma reparse_idem: "reparse (reparse v) = reparse v"
  by (induction v rule: reparse.induct) (auto simp: comp_def)

lemma reparse_user_idem: "reparse_user (reparse_user u) = reparse_user u"
  by (simp add: reparse_user_def option.map_comp comp_def reparse_idem)

lemma reparse_user_cart:
  "reparse_user (u\<lparr>cart := c\<rparr>) = (reparse_user u)\<lparr>cart := map_option reparse c\<rparr>"
  by (simp add: reparse_user_def)

lemma reparse_primitive:
  assumes "truthy (map_option reparse v)" and "primitive (map_option reparse v)"
  shows "map_option reparse v = v"
proof (cases v)
  case None
  then show ?thesis by simp
next
  case (Some j)
  with assms show ?thesis by (cases j) (auto simp: primitive_def split: if_splits)
qed

lemma reparse_JStr: "map_option reparse v = Some (JStr t) \<longleftrightarrow> v = Some (JStr t)"
proof (cases v)
  case None
  then show ?thesis by simp
next
  case (Some j)
  then show ?thesis by (cases j) (auto split: if_splits)
qed

subsection \<open>Reading and writing the file\<close>

lemma readUsers_snd: "snd (readUsers s) = stored s"
  by (simp add: readUsers_def ensureUsersFile_def stored_def Let_def split: file_content.splits)

lemma stored_readUsers: "stored (fst (readUsers s)) = stored s"
  by (simp add: readUsers_def ensureUsersFile_def stored_def Let_def split: file_content.splits)

lemma readUsers_eq: "readUsers s = (fst (readUsers s), stored s)"
  by (metis prod.collapse readUsers_snd)

lemma readUsers_nonempty: "stored s \<noteq> [] \<Longrightarrow> readUsers s = (s, stored s)"
  by (simp add: readUsers_def ensureUsersFile_def stored_def Let_def split: file_content.splits)

lemma stored_mem_readUsers: "u \<in> set (stored s) \<Longrightarrow> readUsers s = (s, stored s)"
  by (rule readUsers_nonempty) auto

lemma stored_writeUsers: "stored (writeUsers us s) = map reparse_user us"
  by (simp add: stored_def writeUsers_def)

lemma writes_writeUsers: "writes (writeUsers us s) = Suc (writes s)"
  by (simp add: writeUsers_def)

lemma writes_readUsers: "writes s \<le> writes (fst (readUsers s))"
  by (simp add: readUsers_def ensureUsersFile_def Let_def split: file_content.splits)

text \<open>What is read from the file is read back unchanged when it is written again.\<close>

lemma stored_stable: "map reparse_user (stored s) = stored s"
  by (simp add: stored_def reparse_user_idem split: file_content.splits)

lemma stored_nth_stable: "i < length (stored s) \<Longrightarrow> reparse_user (stored s ! i) = stored s ! i"
  using stored_stable[of s] by (metis nth_map)

lemma stored_update_cart_stable:
  assumes "i < length (stored s)"
  shows "map reparse_user ((stored s)[i := (stored s ! i)\<lparr>cart := c\<rparr>])
           = (stored s)[i := (stored s ! i)\<lparr>cart := map_option reparse c\<rparr>]"
  by (simp add: map_update reparse_user_cart stored_stable stored_nth_stable[OF assms])

subsection \<open>\<^verbatim>\<open>findIndex\<close> and \<^verbatim>\<open>find\<close>\<close>

lemma findIndex_Some:
  "findIndex p xs = Some i \<Longrightarrow> i < length xs \<and> p (xs ! i) \<and> (\<forall>j<i. \<not> p (xs ! j))"
proof (induction xs arbitrary: i)
  case Nil
  then show ?case by simp
next
  case (Cons x xs)
  show ?case
  proof (cases "p x")
    case True
    with Cons.prems show ?thesis by simp
  next
    case False
    with Cons.prems obtain k where k: "findIndex p xs = Some k" "i = Suc k" by auto
    from Cons.IH[OF k(1)] False k(2) show ?thesis
      by (auto simp: less_Suc_eq_0_disj)
  qed
qed

lemma findIndex_None: "findIndex p xs = None \<longleftrightarrow> (\<forall>x\<in>set xs. \<not> p x)"
  by (induction xs) auto

lemma list_ex_findIndex: "list_ex q xs \<longleftrightarrow> findIndex q xs \<noteq> None"
  by (simp add: findIndex_None list_ex_iff)

lemma findIndex_snoc_None:
  "findIndex p xs = None \<Longrightarrow> findIndex p (xs @ [y]) = (if p y then Some (length xs) else None)"
  by (induction xs) (auto split: if_splits)

lemma findIndex_cong_nth:
  "length ys = length xs \<Longrightarrow> (\<forall>i<length xs. p (ys ! i) = p (xs ! i))
     \<Longrightarrow> findIndex p ys = findIndex p xs"
proof (induction xs arbitrary: ys)
  case Nil
  then show ?case by simp
next
  case (Cons x xs)
  then obtain y ys' where ys: "ys = y # ys'" by (cases ys) auto
  from Cons.prems ys have "p y = p x" by auto
  moreover from Cons.prems ys have "findIndex p ys' = findIndex p xs"
    by (intro Cons.IH) auto
  ultimately show ?case using ys by simp
qed

lemma list_ex_find: "list_ex p xs \<longleftrightarrow> find p xs \<noteq> None"
  by (auto simp: find_None_iff list_ex_iff)

text \<open>The search with a callback that can throw. Where the callback throws on no
  element, it is the search with the callback's truth value.\<close>

lemma findIndex_throwing_pure:
  "(\<forall>x\<in>set xs. p x \<noteq> Inl TypeError)
     \<Longrightarrow> findIndex_throwing p xs = Inr (findIndex (\<lambda>x. p x = Inr True) xs)"
proof (induction xs)
  case Nil
  then show ?case by simp
next
  case (Cons x xs)
  from Cons.prems obtain b where b: "p x = Inr b"
    by (cases "p x") (auto, metis error.exhaust)
  from Cons.prems have "findIndex_throwing p xs = Inr (findIndex (\<lambda>x. p x = Inr True) xs)"
    by (intro Cons.IH) simp
  with b show ?case by (cases b) simp_all
qed

lemma findIndex_throwing_Some:
  "findIndex_throwing p xs = Inr (Some i)
     \<Longrightarrow> i < length xs \<and> p (xs ! i) = Inr True \<and> (\<forall>j<i. p (xs ! j) = Inr False)"
proof (induction xs arbitrary: i)
  case Nil
  then show ?case by simp
next
  case (Cons x xs)
  show ?case
  proof (cases "p x = Inr True")
    case True
    with Cons.prems show ?thesis by simp
  next
    case False
    with Cons.prems have x: "p x = Inr False"
      by (auto split: sum.splits bool.splits)
    with Cons.prems obtain k where k: "findIndex_throwing p xs = Inr (Some k)" "i = Suc k"
      by (auto split: sum.splits)
    from Cons.IH[OF k(1)] x k(2) show ?thesis
      by (auto simp: less_Suc_eq_0_disj)
  qed
qed

lemma findIndex_throwing_None:
  "findIndex_throwing p xs = Inr None \<longleftrightarrow> (\<forall>x\<in>set xs. p x = Inr False)"
  by (induction xs) (auto split: sum.splits bool.splits)

lemma findIndex_throwing_cong_nth:
  "length ys = length xs \<Longrightarrow> (\<forall>i<length xs. p (ys ! i) = p (xs ! i))
     \<Longrightarrow> findIndex_throwing p ys = findIndex_throwing p xs"
proof (induction xs arbitrary: ys)
  case Nil
  then show ?case by simp
next
  case (Cons x xs)
  then obtain y ys' where ys: "ys = y # ys'" by (cases ys) auto
  from Cons.prems ys have "p y = p x" by auto
  moreover from Cons.prems ys have "findIndex_throwing p ys' = findIndex_throwing p xs"
    by (intro Cons.IH) auto
  ultimately show ?case using ys by (auto split: sum.splits bool.splits)
qed

lemma findIndex_throwing_snoc_None:
  "findIndex_throwing p xs = Inr None
     \<Longrightarrow> findIndex_throwing p (xs @ [y])
         = (case p y of Inl e \<Rightarrow> Inl e | Inr b \<Rightarrow> Inr (if b then Some (length xs) else None))"
proof (induction xs)
  case Nil
  show ?case by (auto split: sum.splits bool.splits)
next
  case (Cons x xs)
  from Cons.prems have x: "p x = Inr False" and r: "findIndex_throwing p xs = Inr None"
    by (auto split: sum.splits bool.splits)
  from Cons.IH[OF r] x show ?case by (auto split: sum.splits bool.splits)
qed

subsection \<open>The extracted email and id, and the search\<close>

lemma truthy_profile_of: "truthy su \<Longrightarrow> truthy (profile_of su)"
  by (simp add: profile_of_def js_and_def)


lemma profileId_of_cases:
  "profileId_of p =
     (if truthy (getp p ''id'') then getp p ''id''
      else if truthy (getp p ''_id'') then getp p ''_id'' else Some (JStr []))"
proof -
  have g: "getp v k = None" if "\<not> truthy v" "k \<noteq> ''length''" for v k
    using that by (cases "(v, k)" rule: getp.cases) auto
  show ?thesis
    by (cases "truthy p") (simp_all add: profileId_of_def js_or_def js_and_def g)
qed


lemma id_matches_cart: "id_matches pid (u\<lparr>cart := c\<rparr>) = id_matches pid u"
  by (simp add: id_matches_def)

lemma lookup_idx_Some_lt: "lookup_idx us p = Inr (Some i) \<Longrightarrow> i < length us"
  by (auto simp: lookup_idx_def Let_def split: if_splits
        dest: findIndex_Some findIndex_throwing_Some)

lemma lookup_idx_update_cart:
  assumes "i < length us"
  shows "lookup_idx (us[i := (us ! i)\<lparr>cart := c\<rparr>]) p = lookup_idx us p"
proof -
  have e: "findIndex (\<lambda>u. strict_eq (email u) (email_of p)) (us[i := (us ! i)\<lparr>cart := c\<rparr>])
           = findIndex (\<lambda>u. strict_eq (email u) (email_of p)) us"
    using assms by (intro findIndex_cong_nth) (auto simp: nth_list_update)
  have d: "findIndex_throwing (id_matches (profileId_of p)) (us[i := (us ! i)\<lparr>cart := c\<rparr>])
           = findIndex_throwing (id_matches (profileId_of p)) us"
    using assms by (intro findIndex_throwing_cong_nth) (auto simp: nth_list_update id_matches_cart)
  show ?thesis by (auto simp: lookup_idx_def Let_def e d)
qed

text \<open>The record that was created for an identity is found again after it has been
  written and read back, when the identity has a key.\<close>

lemma lookup_idx_snoc_new:
  assumes "lookup_idx us p = Inr None" and "newRec_id now p = Inr i0"
    and "truthy (profileId_of p)
         \<or> (truthy (email_of p) \<and> primitive (email_of p)
             \<and> map_option reparse (email_of p) = email_of p)"
  shows "lookup_idx (us @ [reparse_user ((newRec i0 p)\<lparr>cart := c\<rparr>)]) p = Inr (Some (length us))"
proof -
  let ?E = "\<lambda>u. strict_eq (email u) (email_of p)"
  let ?I = "id_matches (profileId_of p)"
  let ?n = "reparse_user ((newRec i0 p)\<lparr>cart := c\<rparr>)"
  from assms(1) have e: "truthy (email_of p) \<Longrightarrow> findIndex ?E us = None"
    and i: "truthy (profileId_of p) \<Longrightarrow> findIndex_throwing ?I us = Inr None"
    by (auto simp: lookup_idx_def Let_def split: if_splits)
  have en: "?E ?n = strict_eq (map_option reparse (email_of p)) (email_of p)"
    if "truthy (email_of p)"
    using that by (simp add: newRec_def reparse_user_def js_or_def)
  have idn: "?I ?n = Inr True" if "truthy (profileId_of p)"
    using that assms(2)
    by (simp add: newRec_def newRec_id_def reparse_user_def id_matches_def js_String_JStr)
  show ?thesis
  proof (cases "truthy (email_of p) \<and> primitive (email_of p)
                \<and> map_option reparse (email_of p) = email_of p")
    case True
    with e en have "findIndex ?E (us @ [?n]) = Some (length us)"
      by (simp add: findIndex_snoc_None primitive_def)
    with True show ?thesis by (simp add: lookup_idx_def)
  next
    case False
    with assms(3) have pid: "truthy (profileId_of p)" by blast
    have "findIndex ?E (us @ [?n]) = None" if t: "truthy (email_of p)"
    proof -
      have "\<not> strict_eq (map_option reparse (email_of p)) (email_of p)"
      proof
        assume a: "strict_eq (map_option reparse (email_of p)) (email_of p)"
        then have "map_option reparse (email_of p) = email_of p" by (rule strict_eq_imp_eq)
        with a False t show False by (simp add: primitive_def)
      qed
      with t e en show ?thesis by (simp add: findIndex_snoc_None)
    qed
    moreover have "findIndex_throwing ?I (us @ [?n]) = Inr (Some (length us))"
      using i[OF pid] idn[OF pid] by (simp add: findIndex_throwing_snoc_None)
    ultimately show ?thesis using pid by (simp add: lookup_idx_def)
  qed
qed

subsection \<open>The outcomes of \<^verbatim>\<open>getOrCreateUserRecord\<close>\<close>

lemma getOrCreate_found:
  assumes "lookup_idx (stored s) (profile_of su) = Inr (Some i)"
  shows "getOrCreateUserRecord now s su
           = (s, Inr \<lparr>user = stored s ! i, users = stored s, index = i\<rparr>)"
proof -
  from assms have "i < length (stored s)" by (rule lookup_idx_Some_lt)
  then have "stored s \<noteq> []" by auto
  then have "readUsers s = (s, stored s)" by (rule readUsers_nonempty)
  with assms show ?thesis by (simp add: getOrCreateUserRecord_def)
qed

lemma getOrCreate_created:
  assumes "lookup_idx (stored s) (profile_of su) = Inr None"
    and "newRec_id now (profile_of su) = Inr i0" and "\<not> nullish (profile_of su)"
  shows "getOrCreateUserRecord now s su =
           (writeUsers (stored s @ [newRec i0 (profile_of su)]) (fst (readUsers s)),
            Inr \<lparr>user = newRec i0 (profile_of su),
                 users = stored s @ [newRec i0 (profile_of su)],
                 index = length (stored s)\<rparr>)"
  using assms by (subst getOrCreateUserRecord_def, subst readUsers_eq) (simp add: Let_def)

lemma getOrCreate_throws:
  assumes "lookup_idx (stored s) (profile_of su) = Inl e
           \<or> lookup_idx (stored s) (profile_of su) = Inr None
             \<and> (newRec_id now (profile_of su) = Inl e' \<or> nullish (profile_of su))"
  shows "getOrCreateUserRecord now s su = (fst (readUsers s), Inl TypeError)"
proof -
  have t: "x = TypeError" for x :: error by (cases x) simp
  from assms show ?thesis
    by (subst getOrCreateUserRecord_def, subst readUsers_eq)
       (auto simp: Let_def t split: sum.splits option.splits)
qed

lemma getOrCreate_cases [case_names found created threw]:
  obtains (found) i where "lookup_idx (stored s) (profile_of su) = Inr (Some i)"
      and "i < length (stored s)"
      and "getOrCreateUserRecord now s su
             = (s, Inr \<lparr>user = stored s ! i, users = stored s, index = i\<rparr>)"
  | (created) i0 where "lookup_idx (stored s) (profile_of su) = Inr None"
      and "newRec_id now (profile_of su) = Inr i0"
      and "getOrCreateUserRecord now s su
             = (writeUsers (stored s @ [newRec i0 (profile_of su)]) (fst (readUsers s)),
                Inr \<lparr>user = newRec i0 (profile_of su),
                     users = stored s @ [newRec i0 (profile_of su)],
                     index = length (stored s)\<rparr>)"
  | (threw) "getOrCreateUserRecord now s su = (fst (readUsers s), Inl TypeError)"
proof (cases "lookup_idx (stored s) (profile_of su)")
  case (Inl e)
  then show ?thesis using getOrCreate_throws[of s su e] threw by blast
next
  case (Inr r)
  show ?thesis
  proof (cases r)
    case None
    show ?thesis
    proof (cases "newRec_id now (profile_of su)")
      case (Inl e')
      with Inr None show ?thesis using getOrCreate_throws[of s su _ now e'] threw by blast
    next
      case i0: (Inr i0)
      show ?thesis
      proof (cases "nullish (profile_of su)")
        case True
        with Inr None show ?thesis using getOrCreate_throws[of s su _ now] threw by blast
      next
        case False
        from Inr None i0 getOrCreate_created[OF _ i0 False] show ?thesis
          by (intro created[of i0]) simp_all
      qed
    qed
  next
    case (Some i)
    with Inr have l: "lookup_idx (stored s) (profile_of su) = Inr (Some i)" by simp
    from l lookup_idx_Some_lt[OF l] getOrCreate_found[OF l] show ?thesis by (rule found)
  qed
qed

lemma getOrCreate_stored_cases:
  "stored (fst (getOrCreateUserRecord now s su)) = stored s
   \<or> (\<exists>i0. lookup_idx (stored s) (profile_of su) = Inr None
            \<and> stored (fst (getOrCreateUserRecord now s su))
                = stored s @ [reparse_user (newRec i0 (profile_of su))])"
proof (cases rule: getOrCreate_cases[of s su now])
  case (found i)
  then show ?thesis by simp
next
  case (created i0)
  then show ?thesis by (auto simp: stored_writeUsers stored_stable)
next
  case threw
  then show ?thesis by (simp add: stored_readUsers)
qed

subsection \<open>The handlers on a found record, on a created record and on a throw\<close>

lemma getOrCreate_created_truthy:
  assumes "truthy su" and "lookup_idx (stored s) (profile_of su) = Inr None"
    and "newRec_id now (profile_of su) = Inr i0"
  shows "getOrCreateUserRecord now s su =
           (writeUsers (stored s @ [newRec i0 (profile_of su)]) (fst (readUsers s)),
            Inr \<lparr>user = newRec i0 (profile_of su),
                 users = stored s @ [newRec i0 (profile_of su)],
                 index = length (stored s)\<rparr>)"
  using assms by (intro getOrCreate_created) (simp_all add: truthy_profile_of truthy_not_nullish)

lemma post_checkout_found:
  assumes "truthy su" and "lookup_idx (stored s) (profile_of su) = Inr (Some i)"
  shows "post_checkout now s su =
           (let c = js_or (cart (stored s ! i)) (Some (JArr []))
            in if \<not> truthy (getp c ''length'')
               then (s, \<lparr>status = 400, body = Failure CartEmpty\<rparr>)
               else (writeUsers ((stored s)[i := (stored s ! i)\<lparr>cart := Some (JArr [])\<rparr>]) s,
                     \<lparr>status = 200,
                        body = OrderBody (''ORD-'' @ string_of_nat now) CheckoutDone\<rparr>))"
  using assms(1) by (simp add: post_checkout_def getOrCreate_found[OF assms(2)] Let_def)

lemma post_checkout_created:
  assumes "truthy su" and "lookup_idx (stored s) (profile_of su) = Inr None"
    and "newRec_id now (profile_of su) = Inr i0"
  shows "post_checkout now s su =
           (writeUsers (stored s @ [newRec i0 (profile_of su)]) (fst (readUsers s)),
            \<lparr>status = 400, body = Failure CartEmpty\<rparr>)"
  using assms(1)
  by (simp add: post_checkout_def getOrCreate_created_truthy[OF assms] Let_def newRec_def
      js_or_def string_of_nat_zero)

lemma post_cart_found:
  assumes "truthy su" and "lookup_idx (stored s) (profile_of su) = Inr (Some i)"
  shows "post_cart now s su b =
           (writeUsers ((stored s)[i := (stored s ! i)\<lparr>cart := newCart b\<rparr>]) s,
            \<lparr>status = 200, body = CartBody (newCart b)\<rparr>)"
  using assms(1) lookup_idx_Some_lt[OF assms(2)]
  by (simp add: post_cart_def getOrCreate_found[OF assms(2)] Let_def)

lemma post_cart_created:
  assumes "truthy su" and "lookup_idx (stored s) (profile_of su) = Inr None"
    and "newRec_id now (profile_of su) = Inr i0"
  shows "post_cart now s su b =
           (writeUsers (stored s @ [(newRec i0 (profile_of su))\<lparr>cart := newCart b\<rparr>])
              (writeUsers (stored s @ [newRec i0 (profile_of su)]) (fst (readUsers s))),
            \<lparr>status = 200, body = CartBody (newCart b)\<rparr>)"
  using assms(1) by (simp add: post_cart_def getOrCreate_created_truthy[OF assms] Let_def)

lemma get_cart_found:
  assumes "truthy su" and "lookup_idx (stored s) (profile_of su) = Inr (Some i)"
  shows "get_cart now s su =
           (s, \<lparr>status = 200, body = CartBody (js_or (cart (stored s ! i)) (Some (JArr [])))\<rparr>)"
  using assms(1) by (simp add: get_cart_def getOrCreate_found[OF assms(2)])

text \<open>When \<^verbatim>\<open>getOrCreateUserRecord\<close> throws, each of the three handlers answers 500 and
  writes nothing.\<close>

lemma handlers_threw:
  assumes "truthy su"
    and "getOrCreateUserRecord now s su = (fst (readUsers s), Inl TypeError)"
  shows "get_cart now s su
           = (fst (readUsers s), \<lparr>status = 500, body = Failure CartServerError\<rparr>)"
    and "post_cart now s su b
           = (fst (readUsers s), \<lparr>status = 500, body = Failure CartServerError\<rparr>)"
    and "post_checkout now s su
           = (fst (readUsers s), \<lparr>status = 500, body = Failure CartServerError\<rparr>)"
  using assms by (simp_all add: get_cart_def post_cart_def post_checkout_def)

lemma post_login_cases:
  "post_login login_err s b =
     (if \<not> truthy (field b ''email'') \<or> \<not> truthy (field b ''password'')
      then (s, \<lparr>status = 400, body = Failure MissingInfo\<rparr>, None)
      else case find (\<lambda>u. strict_eq (email u) (field b ''email'')
                         \<and> strict_eq (password u) (field b ''password'')) (stored s) of
             None \<Rightarrow> (fst (readUsers s), \<lparr>status = 401, body = Failure BadCredentials\<rparr>, None)
           | Some u \<Rightarrow>
               if login_err
               then (fst (readUsers s), \<lparr>status = 500, body = Failure LoginFailed\<rparr>, None)
               else (fst (readUsers s), \<lparr>status = 200, body = UserBody u\<rparr>, local_identity u))"
  by (subst post_login_def, subst readUsers_eq) simp

lemma post_login_status:
  "status (fst (snd (post_login login_err s b))) =
     (if truthy (field b ''email'') \<and> truthy (field b ''password'')
      then if credentials_match s b then if login_err then 500 else 200 else 401
      else 400)"
  by (auto simp: post_login_cases credentials_match_def list_ex_find split: option.splits)

lemma post_login_stored: "stored (fst (post_login login_err s b)) = stored s"
  by (simp add: post_login_cases stored_readUsers split: option.splits)

subsection \<open>The two searches\<close>





subsection \<open>The uniqueness invariant\<close>

lemma primitive_email_cart [simp]: "primitive_email (u\<lparr>cart := c\<rparr>) = primitive_email u"
  by (simp add: primitive_email_def)

lemma primitive_email_mem:
  "e \<in> set (primitive_email u) \<longleftrightarrow> email u = e \<and> truthy e \<and> primitive e"
  by (auto simp: primitive_email_def)

lemma distinct_primitive_email: "distinct (primitive_email a)"
  by (simp add: primitive_email_def)

lemma unique_emails_same:
  assumes "unique_emails us" and "u \<in> set us" and "v \<in> set us"
    and "email u = email v" and "truthy (email u)" and "primitive (email u)"
  shows "u = v"
  using assms(1-3)
proof (induction us)
  case Nil
  then show ?case by simp
next
  case (Cons a us)
  have eu: "primitive_email u = [email u]" and ev: "primitive_email v = [email u]"
    using assms(4-6) by (simp_all add: primitive_email_def)
  from Cons.prems(1) have d: "unique_emails us"
    and dj: "set (primitive_email a) \<inter> (\<Union>w\<in>set us. set (primitive_email w)) = {}"
    by (auto simp: unique_emails_def)
  show ?case
  proof (cases "u = a")
    case ua: True
    show ?thesis
    proof (cases "v = a")
      case True
      with ua show ?thesis by simp
    next
      case False
      with Cons.prems(3) have "v \<in> set us" by simp
      with ev ua eu dj show ?thesis by force
    qed
  next
    case una: False
    with Cons.prems(2) have uin: "u \<in> set us" by simp
    show ?thesis
    proof (cases "v = a")
      case True
      with uin ev eu dj show ?thesis by force
    next
      case False
      with Cons.prems(3) have "v \<in> set us" by simp
      with Cons.IH[OF d uin] show ?thesis .
    qed
  qed
qed

lemma unique_emails_update_cart:
  "unique_emails (us[i := (us ! i)\<lparr>cart := c\<rparr>]) = unique_emails us"
proof (cases "i < length us")
  case True
  then have "map primitive_email (us[i := (us ! i)\<lparr>cart := c\<rparr>]) = map primitive_email us"
    by (simp add: map_update list_update_same_conv)
  then show ?thesis by (simp add: unique_emails_def)
next
  case False
  then show ?thesis by (simp add: list_update_beyond)
qed

lemma unique_emails_snoc:
  assumes "unique_emails us"
    and "truthy (email r) \<Longrightarrow> primitive (email r)
           \<Longrightarrow> \<not> list_ex (\<lambda>u. strict_eq (email u) (email r)) us"
  shows "unique_emails (us @ [r])"
proof -
  have "t \<notin> set (primitive_email r)" if "u \<in> set us" "t \<in> set (primitive_email u)" for u t
  proof
    assume "t \<in> set (primitive_email r)"
    then have r: "email r = t" "truthy (email r)" "primitive (email r)"
      by (simp_all add: primitive_email_mem)
    from assms(2)[OF r(2,3)] that(1) have "\<not> strict_eq (email u) (email r)"
      by (auto simp: list_ex_iff)
    with that(2) r show False by (simp add: primitive_email_mem strict_eq_primitive)
  qed
  with assms(1) distinct_primitive_email[of r] show ?thesis by (auto simp: unique_emails_def)
qed

text \<open>A record is appended when the search for its email found nothing; the record is
  read back from the file with the same email when that is a non-empty primitive.\<close>

lemma unique_emails_snoc_reparse:
  assumes "unique_emails us"
    and "truthy (email r) \<Longrightarrow> \<not> list_ex (\<lambda>u. strict_eq (email u) (email r)) us"
  shows "unique_emails (us @ [reparse_user r])"
proof (rule unique_emails_snoc[OF assms(1)])
  assume "truthy (email (reparse_user r))" and "primitive (email (reparse_user r))"
  then have t: "truthy (map_option reparse (email r))"
    and p: "primitive (map_option reparse (email r))"
    by (simp_all add: reparse_user_def)
  from reparse_primitive[OF t p] have e: "email (reparse_user r) = email r"
    by (simp add: reparse_user_def)
  with t reparse_primitive[OF t p] have "truthy (email r)" by simp
  from assms(2)[OF this] e
  show "\<not> list_ex (\<lambda>u. strict_eq (email u) (email (reparse_user r))) us" by simp
qed

lemma unique_emails_newRec:
  assumes "unique_emails us" and "lookup_idx us p = Inr None"
  shows "unique_emails (us @ [reparse_user ((newRec i0 p)\<lparr>cart := c\<rparr>)])"
proof (rule unique_emails_snoc_reparse[OF assms(1)])
  assume "truthy (email ((newRec i0 p)\<lparr>cart := c\<rparr>))"
  then have t: "truthy (email_of p)" and e: "email ((newRec i0 p)\<lparr>cart := c\<rparr>) = email_of p"
    by (auto simp: newRec_def js_or_def split: if_splits)
  from t assms(2) have "findIndex (\<lambda>u. strict_eq (email u) (email_of p)) us = None"
    by (auto simp: lookup_idx_def Let_def split: if_splits)
  with e show "\<not> list_ex (\<lambda>u. strict_eq (email u) (email ((newRec i0 p)\<lparr>cart := c\<rparr>))) us"
    by (simp add: list_ex_findIndex)
qed

lemma unique_emails_getOrCreate:
  assumes "unique_emails (stored s)"
  shows "unique_emails (stored (fst (getOrCreateUserRecord now s su)))"
proof -
  have "unique_emails (stored s @ [reparse_user (newRec i0 (profile_of su))])"
    if "lookup_idx (stored s) (profile_of su) = Inr None" for i0
    using unique_emails_newRec[OF assms that, where ?i0.0 = i0
        and c = "cart (newRec i0 (profile_of su))"]
    by simp
  with assms getOrCreate_stored_cases[of now s su] show ?thesis by auto
qed

lemma unique_emails_register:
  assumes "unique_emails (stored s)"
  shows "unique_emails (stored (fst (post_register now login_err s b)))"
proof -
  let ?new = "\<lparr>uid = Some (JStr (string_of_nat now)), name = field b ''name'',
               email = field b ''email'', password = field b ''password'',
               cart = Some (JArr [])\<rparr>"
  have "unique_emails (stored s @ [reparse_user ?new])"
    if "\<not> list_ex (\<lambda>u. strict_eq (email u) (field b ''email'')) (stored s)"
    using that by (intro unique_emails_snoc_reparse[OF assms]) simp
  with assms show ?thesis
    by (subst post_register_def, subst readUsers_eq)
       (simp add: Let_def stored_writeUsers stored_readUsers stored_stable)
qed

lemma unique_emails_post_cart:
  assumes "unique_emails (stored s)"
  shows "unique_emails (stored (fst (post_cart now s su b)))"
proof (cases "truthy su")
  case False
  with assms show ?thesis by (simp add: post_cart_def)
next
  case True
  show ?thesis
  proof (cases rule: getOrCreate_cases[of s su now])
    case (found i)
    with assms show ?thesis
      by (simp add: post_cart_found[OF True found(1)] stored_writeUsers
          stored_update_cart_stable unique_emails_update_cart)
  next
    case (created i0)
    with assms show ?thesis
      by (simp add: post_cart_created[OF True created(1,2)] stored_writeUsers stored_stable
          unique_emails_newRec)
  next
    case threw
    with assms show ?thesis by (simp add: handlers_threw(2)[OF True threw] stored_readUsers)
  qed
qed

lemma unique_emails_post_checkout:
  assumes "unique_emails (stored s)"
  shows "unique_emails (stored (fst (post_checkout now s su)))"
proof (cases "truthy su")
  case False
  with assms show ?thesis by (simp add: post_checkout_def)
next
  case True
  show ?thesis
  proof (cases rule: getOrCreate_cases[of s su now])
    case (found i)
    with assms show ?thesis
      by (simp add: post_checkout_found[OF True found(1)] Let_def stored_writeUsers
          stored_update_cart_stable unique_emails_update_cart)
  next
    case (created i0)
    from unique_emails_newRec[OF assms created(1), where ?i0.0 = i0
        and c = "cart (newRec i0 (profile_of su))"]
    show ?thesis
      by (simp add: post_checkout_created[OF True created(1,2)] stored_writeUsers stored_stable)
  next
    case threw
    with assms show ?thesis by (simp add: handlers_threw(3)[OF True threw] stored_readUsers)
  qed
qed

lemma unique_emails_get_cart:
  assumes "unique_emails (stored s)"
  shows "unique_emails (stored (fst (get_cart now s su)))"
proof (cases "truthy su")
  case False
  with assms show ?thesis by (simp add: get_cart_def)
next
  case True
  have "fst (get_cart now s su) = fst (getOrCreateUserRecord now s su)"
    using True by (simp add: get_cart_def split: prod.splits sum.splits)
  with unique_emails_getOrCreate[OF assms] show ?thesis by simp
qed

text \<open>Both invariants say that an email occurs in at most one record: the first of each
  non-empty email, the second of each non-empty email that is a primitive value. They
  are the same on a store whose emails are all primitive values, and the first gives
  the second.\<close>

lemma distinct_keyed:
  "distinct (concat (map (\<lambda>u. if P (g u) then [g u] else []) us))
     \<longleftrightarrow> (\<forall>e. P e \<longrightarrow> length (filter (\<lambda>u. g u = e) us) \<le> 1)"
proof (induction us)
  case Nil
  then show ?case by simp
next
  case (Cons a us)
  have m: "e \<in> set (concat (map (\<lambda>u. if P (g u) then [g u] else []) us))
             \<longleftrightarrow> P e \<and> filter (\<lambda>u. g u = e) us \<noteq> []" for e
    by (auto simp: filter_empty_conv split: if_splits)
  have step: "(length (filter (\<lambda>u. g u = e) us) \<le> 1
               \<and> (g a = e \<longrightarrow> filter (\<lambda>u. g u = e) us = []))
              \<longleftrightarrow> length (filter (\<lambda>u. g u = e) (a # us)) \<le> 1" for e
    by (cases "g a = e") auto
  have "distinct (concat (map (\<lambda>u. if P (g u) then [g u] else []) (a # us)))
          \<longleftrightarrow> (\<forall>e. P e \<longrightarrow> length (filter (\<lambda>u. g u = e) us) \<le> 1)
              \<and> (P (g a) \<longrightarrow> filter (\<lambda>u. g u = g a) us = [])"
    using Cons.IH by (simp add: m del: set_concat)
  also have "\<dots> \<longleftrightarrow> (\<forall>e. P e \<longrightarrow>
                 length (filter (\<lambda>u. g u = e) us) \<le> 1
                 \<and> (g a = e \<longrightarrow> filter (\<lambda>u. g u = e) us = []))"
    by blast
  finally show ?case unfolding step .
qed

lemma unique_nonempty_emails_iff:
  "unique_nonempty_emails us
     \<longleftrightarrow> (\<forall>e. truthy e \<longrightarrow> length (filter (\<lambda>u. email u = e) us) \<le> 1)"
  unfolding unique_nonempty_emails_def nonempty_email_def by (rule distinct_keyed)

lemma unique_emails_iff:
  "unique_emails us
     \<longleftrightarrow> (\<forall>e. truthy e \<and> primitive e \<longrightarrow> length (filter (\<lambda>u. email u = e) us) \<le> 1)"
  unfolding unique_emails_def primitive_email_def
  by (rule distinct_keyed[where P = "\<lambda>e. truthy e \<and> primitive e"])

lemma unique_emails_primitive:
  "(\<forall>u\<in>set us. primitive (email u)) \<Longrightarrow> unique_emails us = unique_nonempty_emails us"
  by (simp add: unique_emails_def unique_nonempty_emails_def primitive_email_def
      nonempty_email_def cong: map_cong)

lemma unique_nonempty_imp_unique: "unique_nonempty_emails us \<Longrightarrow> unique_emails us"
  unfolding unique_nonempty_emails_iff unique_emails_iff by blast

subsection \<open>The identity of a local user\<close>

text \<open>The identity that a successful registration stores has the new record as its
  profile; its id is the clock, which is not empty.\<close>

lemma profile_of_local_identity: "profile_of (local_identity u) = Some (json_of_user u)"
  by (simp add: profile_of_def local_identity_def js_and_def json_of_user_def)

lemma profileId_of_local_identity:
  "truthy (uid u) \<Longrightarrow> profileId_of (Some (json_of_user u)) = uid u"
  by (cases "uid u") (simp_all add: profileId_of_cases json_of_user_def own_prop_def)

lemma local_identity_identifiable: "truthy (uid u) \<Longrightarrow> identifiable (local_identity u)"
  by (simp add: identifiable_def profile_of_local_identity profileId_of_local_identity)

lemma registered_identity:
  assumes "post_register now False s b = (s', r, su)" and "status r = 200"
  shows "truthy su \<and> identifiable su"
proof -
  let ?new = "\<lparr>uid = Some (JStr (string_of_nat now)), name = field b ''name'',
               email = field b ''email'', password = field b ''password'',
               cart = Some (JArr [])\<rparr>"
  from assms have su: "su = local_identity ?new"
    by (auto simp: post_register_def Let_def split: if_splits prod.splits)
  have "truthy (uid ?new)"
    using string_of_nat_digits[of now] by simp
  from local_identity_identifiable[OF this] su show ?thesis
    by (simp add: local_identity_def)
qed

subsection \<open>Unfolding the definitions on concrete inputs\<close>

lemmas ex_defs = ann_identity_def ann_record_def eve_record_def one_item_def empty_store_def
  store_of_def

lemmas js_defs = js_or_def js_and_def js_String_def join_comma_def

lemmas model_defs = getOrCreateUserRecord_def readUsers_def ensureUsersFile_def writeUsers_def
  stored_def reparse_user_def lookup_idx_def id_matches_def profile_of_def email_of_def
  profileId_of_def newRec_id_def newRec_def field_def post_checkout_def newCart_def
  post_cart_def get_cart_def post_login_def post_register_def Let_def

section \<open>Checkout of an empty cart\<close>

text \<open>
  C1, as it is stated, fails where the identity of the session matches no stored record:
  \<^verbatim>\<open>getOrCreateUserRecord\<close> appends and writes a new record (with an empty cart)
  before the handler answers 400. Here the store is the empty array and the identity is
  new: the answer is 400, and the file has been rewritten with one record.
\<close>

theorem checkout_empty_cart_counterexample:
  "truthy ann_identity
   \<and> snd (getOrCreateUserRecord 1700000000123 empty_store ann_identity)
       = Inr \<lparr>user = ann_record (Some (JArr [])), users = [ann_record (Some (JArr []))],
              index = 0\<rparr>
   \<and> post_checkout 1700000000123 empty_store ann_identity
       = (\<lparr>users_json = Users [ann_record (Some (JArr []))], writes = 1\<rparr>,
          \<lparr>status = 400, body = Failure CartEmpty\<rparr>)
   \<and> fst (post_checkout 1700000000123 empty_store ann_identity) \<noteq> empty_store"
  by (simp add: ex_defs js_defs model_defs string_of_nat_zero)

text \<open>
  C1, amended. When the identity of an authenticated session resolves to a record whose
  cart is the empty array (or is absent), \<^verbatim>\<open>POST /api/checkout\<close> answers 400. If the
  record was already in the store, the file system is left as it was: no record is
  created or modified and the file is not written. Otherwise the record is the one that
  \<^verbatim>\<open>getOrCreateUserRecord\<close> has just appended and persisted: the store then holds one
  more record, which is that record as it is read back from the file.
\<close>

theorem checkout_empty_cart_existing_record:
  assumes "truthy req_user"
    and "snd (getOrCreateUserRecord now s req_user) = Inr r"
    and "cart (user r) = Some (JArr []) \<or> cart (user r) = None"
  shows "status (snd (post_checkout now s req_user)) = 400
       \<and> (if index r < length (stored s)
           then fst (post_checkout now s req_user) = s
           else stored (fst (post_checkout now s req_user)) = stored s @ [reparse_user (user r)]
                \<and> writes s < writes (fst (post_checkout now s req_user)))"
proof (cases rule: getOrCreate_cases[of s req_user now])
  case (found i)
  with assms(2) have r: "r = \<lparr>user = stored s ! i, users = stored s, index = i\<rparr>" by simp
  with assms(3) have "\<not> truthy (getp (js_or (cart (stored s ! i)) (Some (JArr []))) ''length'')"
    by (auto simp: js_or_def string_of_nat_zero)
  with r found(2) show ?thesis
    by (simp add: post_checkout_found[OF assms(1) found(1)])
next
  case (created i0)
  with assms(2) have r: "user r = newRec i0 (profile_of req_user)" "index r = length (stored s)"
    by auto
  have "writes s < Suc (writes (fst (readUsers s)))"
    using writes_readUsers[of s] by simp
  with r show ?thesis
    by (simp add: post_checkout_created[OF assms(1) created(1,2)] stored_writeUsers
        stored_stable writes_writeUsers)
next
  case threw
  with assms(2) show ?thesis by simp
qed

theorem checkout_empty_cart_existing_record_witness:
  "truthy ann_identity
   \<and> post_checkout 1700000000123 (store_of [eve_record, ann_record (Some (JArr []))]) ann_identity
       = (store_of [eve_record, ann_record (Some (JArr []))],
          \<lparr>status = 400, body = Failure CartEmpty\<rparr>)
   \<and> stored (fst (post_checkout 1700000000123 (store_of [eve_record]) ann_identity))
       = [eve_record, ann_record (Some (JArr []))]"
proof -
  let ?s = "store_of [eve_record, ann_record (Some (JArr []))]"
  let ?r = "\<lparr>user = ann_record (Some (JArr [])),
             users = [eve_record, ann_record (Some (JArr []))], index = 1\<rparr>"
  have t: "truthy ann_identity"
    by (simp add: ex_defs)
  have g: "snd (getOrCreateUserRecord 1700000000123 ?s ann_identity) = Inr ?r"
    by (simp add: ex_defs js_defs model_defs string_of_nat_zero)
  have c: "cart (user ?r) = Some (JArr []) \<or> cart (user ?r) = None"
    by (simp add: ex_defs)
  have i: "index ?r < length (stored ?s)"
    by (simp add: ex_defs stored_def)
  from checkout_empty_cart_existing_record[OF t g c] i
  have 1: "status (snd (post_checkout 1700000000123 ?s ann_identity)) = 400"
    and 2: "fst (post_checkout 1700000000123 ?s ann_identity) = ?s"
    by simp_all
  have 3: "body (snd (post_checkout 1700000000123 ?s ann_identity)) = Failure CartEmpty"
    by (simp add: ex_defs js_defs model_defs string_of_nat_zero)
  have "post_checkout 1700000000123 ?s ann_identity = (?s, \<lparr>status = 400, body = Failure CartEmpty\<rparr>)"
    using 1 2 3 by (cases "post_checkout 1700000000123 ?s ann_identity") auto
  moreover
  let ?s2 = "store_of [eve_record]"
  let ?r2 = "\<lparr>user = ann_record (Some (JArr [])),
             users = [eve_record, ann_record (Some (JArr []))], index = 1\<rparr>"
  have g2: "snd (getOrCreateUserRecord 1700000000123 ?s2 ann_identity) = Inr ?r2"
    by (simp add: ex_defs js_defs model_defs string_of_nat_zero)
  have i2: "\<not> index ?r2 < length (stored ?s2)"
    by (simp add: ex_defs stored_def)
  from checkout_empty_cart_existing_record[OF t g2 c] i2
  have "stored (fst (post_checkout 1700000000123 ?s2 ann_identity))
          = stored ?s2 @ [reparse_user (user ?r2)]"
    by simp
  then have "stored (fst (post_checkout 1700000000123 ?s2 ann_identity)) = [eve_record, ann_record (Some (JArr []))]"
    by (simp add: ex_defs stored_def reparse_user_def)
  ultimately show ?thesis using t by blast
qed

text \<open>The record that is appended is in the store as it is read back from the file,
  which need not be the record in memory: a display name that is not a finite number
  is read back as \<^verbatim>\<open>null\<close>.\<close>

lemma checkout_created_record_read_back:
  "snd (getOrCreateUserRecord 1700000000123 empty_store
          (Some (JObj [(''id'', JStr ''x1''), (''displayName'', JNum ''Infinity'')])))
     = Inr \<lparr>user = \<lparr>uid = Some (JStr ''x1''), name = Some (JNum ''Infinity''),
                       email = Some (JStr []), password = Some (JStr []),
                       cart = Some (JArr [])\<rparr>,
            users = [\<lparr>uid = Some (JStr ''x1''), name = Some (JNum ''Infinity''),
                       email = Some (JStr []), password = Some (JStr []),
                       cart = Some (JArr [])\<rparr>],
            index = 0\<rparr>
   \<and> stored (fst (post_checkout 1700000000123 empty_store
                     (Some (JObj [(''id'', JStr ''x1''), (''displayName'', JNum ''Infinity'')]))))
     = [\<lparr>uid = Some (JStr ''x1''), name = Some JNull, email = Some (JStr []),
          password = Some (JStr []), cart = Some (JArr [])\<rparr>]"
  by (simp add: ex_defs js_defs model_defs string_of_nat_zero)

section \<open>Logout\<close>

text \<open>
  The handler of the second server file clears the session cookie on each of its three
  replies, and answers 500 exactly when the session is there and its destruction
  fails. It replies whenever \<^verbatim>\<open>req.logout\<close> reports no error.
\<close>

lemma post_logout_part_000_replies:
  "\<exists>r. post_logout_part_000 False has_session destroy_err = Replied r
       \<and> cookie_cleared r
       \<and> lstatus r = (if has_session \<and> destroy_err then 500 else 200)"
  by (simp add: post_logout_part_000_def)

text \<open>Both handlers hand an error of \<^verbatim>\<open>req.logout\<close> to \<^verbatim>\<open>next\<close> and reply nothing
  themselves.\<close>

lemma post_logout_next:
  "post_logout True destroy_err = Next \<and> post_logout_part_000 True has_session destroy_err = Next"
  by (simp add: post_logout_def post_logout_part_000_def)

text \<open>
  C2. The response to \<^verbatim>\<open>POST /api/logout\<close> clears the session cookie whether or not the
  destruction of the session succeeded, and has status 500 when it failed. The handler
  of \<^verbatim>\<open>server.js\<close> does neither: when \<^verbatim>\<open>req.session.destroy\<close> fails it answers 200
  with \<^verbatim>\<open>{ok: true}\<close> and no cookie is cleared.
\<close>

theorem post_logout_destroy_failure:
  "post_logout False True = Replied \<lparr>lstatus = 200, lbody = OkBody, cookie_cleared = False\<rparr>"
  by (simp add: post_logout_def)

section \<open>The uniqueness invariant\<close>

text \<open>
  C3, as it is stated, fails for an email that is not a primitive value. The handler of
  register accepts any non-empty value as the email and looks for it with \<^verbatim>\<open>===\<close>,
  which is never true of an array read from the file and the array of the request. The
  store holds one record whose email is the array \<^verbatim>\<open>["al@x.org"]\<close> (as a first
  registration with that email leaves it); a registration with the same email answers
  200 and appends a second record with that email.
\<close>

theorem unique_emails_array_counterexample:
  "stored (fst (post_register 1700000000001 False empty_store
      [(''name'', JStr ''Al''), (''email'', JArr [JStr ''al@x.org'']),
       (''password'', JStr ''pw'')])) = [al_record]
   \<and> unique_nonempty_emails (stored (store_of [al_record]))
   \<and> status (fst (snd (post_register 1700000000123 False (store_of [al_record])
        [(''name'', JStr ''Al''), (''email'', JArr [JStr ''al@x.org'']),
         (''password'', JStr ''pw'')]))) = 200
   \<and> stored (fst (post_register 1700000000123 False (store_of [al_record])
        [(''name'', JStr ''Al''), (''email'', JArr [JStr ''al@x.org'']),
         (''password'', JStr ''pw'')]))
       = [al_record, al_record\<lparr>uid := Some (JStr ''1700000000123'')\<rparr>]
   \<and> \<not> unique_nonempty_emails (stored (fst (post_register 1700000000123 False
        (store_of [al_record])
        [(''name'', JStr ''Al''), (''email'', JArr [JStr ''al@x.org'']),
         (''password'', JStr ''pw'')])))"
  by (simp add: ex_defs js_defs model_defs al_record_def unique_nonempty_emails_def
      nonempty_email_def string_of_nat.simps digit_char_def)

text \<open>
  C3, amended. If each non-empty email that is a primitive value (a string, a number,
  \<^verbatim>\<open>true\<close>) occurs in at most one record of the store, then it still does after any one
  of the operations: register, login, \<^verbatim>\<open>getOrCreateUserRecord\<close> (as the cart handlers
  call it), cart get, cart replace, checkout; whatever the request, the identity and the
  clock are.
\<close>

theorem unique_emails_preserved:
  assumes "unique_emails (stored s)"
  shows "unique_emails (stored (fst (post_register now login_err s b)))
       \<and> unique_emails (stored (fst (post_login login_err s b)))
       \<and> unique_emails (stored (fst (getOrCreateUserRecord now s req_user)))
       \<and> unique_emails (stored (fst (get_cart now s req_user)))
       \<and> unique_emails (stored (fst (post_cart now s req_user b)))
       \<and> unique_emails (stored (fst (post_checkout now s req_user)))"
  using assms
  by (simp add: unique_emails_register post_login_stored unique_emails_getOrCreate
      unique_emails_get_cart unique_emails_post_cart unique_emails_post_checkout)

theorem unique_emails_preserved_witness:
  "unique_emails (stored (store_of [eve_record]))
   \<and> stored (fst (get_cart 1700000000123 (store_of [eve_record]) ann_identity))
       = [eve_record, ann_record (Some (JArr []))]
   \<and> unique_emails [eve_record, ann_record (Some (JArr []))]"
proof -
  have u: "unique_emails (stored (store_of [eve_record]))"
    by (simp add: unique_emails_def primitive_email_def primitive_def stored_def
        reparse_user_def ex_defs)
  have e: "stored (fst (get_cart 1700000000123 (store_of [eve_record]) ann_identity))
             = [eve_record, ann_record (Some (JArr []))]"
    by (simp add: ex_defs js_defs model_defs)
  from unique_emails_preserved[OF u, where now = 1700000000123 and req_user = ann_identity]
  have "unique_emails (stored (fst (get_cart 1700000000123 (store_of [eve_record]) ann_identity)))"
    by blast
  with u e show ?thesis by simp
qed

section \<open>Login\<close>

text \<open>
  C4, as it is stated, fails when \<^verbatim>\<open>req.login\<close> calls back with an error: both fields
  are there and a stored record matches them, and the answer is 500, not 200.
\<close>

theorem login_failed_session_counterexample:
  "truthy (field [(''email'', JStr ''eve@x.org''), (''password'', JStr ''pw'')] ''email'')
   \<and> truthy (field [(''email'', JStr ''eve@x.org''), (''password'', JStr ''pw'')] ''password'')
   \<and> credentials_match (store_of [eve_record])
         [(''email'', JStr ''eve@x.org''), (''password'', JStr ''pw'')]
   \<and> post_login True (store_of [eve_record])
         [(''email'', JStr ''eve@x.org''), (''password'', JStr ''pw'')]
       = (store_of [eve_record], \<lparr>status = 500, body = Failure LoginFailed\<rparr>, None)"
  by (simp add: ex_defs js_defs model_defs credentials_match_def)

text \<open>
  C4, amended. \<^verbatim>\<open>POST /api/login\<close> answers 200 if and only if email and password are
  both there (non-empty), some stored record matches both by \<^verbatim>\<open>===\<close>, and
  \<^verbatim>\<open>req.login\<close> reports no error. It answers 400 when a field is missing, 401 when
  both are there and no record matches, and 500 when a record matches and
  \<^verbatim>\<open>req.login\<close> fails; so a mismatch never gives 200.
\<close>

theorem login_200_iff:
  "(status (fst (snd (post_login login_err s b))) = 200
      \<longleftrightarrow> truthy (field b ''email'') \<and> truthy (field b ''password'')
          \<and> credentials_match s b \<and> \<not> login_err)
   \<and> status (fst (snd (post_login login_err s b))) =
       (if truthy (field b ''email'') \<and> truthy (field b ''password'')
        then if credentials_match s b then if login_err then 500 else 200 else 401
        else 400)"
  by (auto simp: post_login_status)

theorem login_200_iff_witness:
  "credentials_match (store_of [eve_record]) [(''email'', JStr ''eve@x.org''), (''password'', JStr ''pw'')]
   \<and> post_login False (store_of [eve_record])
         [(''email'', JStr ''eve@x.org''), (''password'', JStr ''pw'')]
       = (store_of [eve_record], \<lparr>status = 200, body = UserBody eve_record\<rparr>,
          local_identity eve_record)
   \<and> status (fst (snd (post_login False (store_of [eve_record])
         [(''email'', JStr ''eve@x.org''), (''password'', JStr ''wrong'')]))) = 401"
proof -
  let ?s = "store_of [eve_record]"
  let ?b = "[(''email'', JStr ''eve@x.org''), (''password'', JStr ''pw'')]"
  let ?w = "[(''email'', JStr ''eve@x.org''), (''password'', JStr ''wrong'')]"
  have m: "credentials_match ?s ?b"
    by (simp add: credentials_match_def ex_defs model_defs)
  have t: "truthy (field ?b ''email'') \<and> truthy (field ?b ''password'')"
    by (simp add: field_def)
  have n: "\<not> credentials_match ?s ?w"
    by (simp add: credentials_match_def ex_defs model_defs)
  have tw: "truthy (field ?w ''email'') \<and> truthy (field ?w ''password'')"
    by (simp add: field_def)
  from login_200_iff[of False ?s ?b] m t
  have 1: "status (fst (snd (post_login False ?s ?b))) = 200" by blast
  have 2: "fst (post_login False ?s ?b) = ?s"
    and 3: "body (fst (snd (post_login False ?s ?b))) = UserBody eve_record"
    and 4: "snd (snd (post_login False ?s ?b)) = local_identity eve_record"
    by (simp_all add: ex_defs model_defs local_identity_def)
  have 5: "post_login False ?s ?b
             = (?s, \<lparr>status = 200, body = UserBody eve_record\<rparr>, local_identity eve_record)"
    using 1 2 3 4 by (cases "post_login False ?s ?b") auto
  from login_200_iff[of False ?s ?w] n tw
  have "status (fst (snd (post_login False ?s ?w))) = 401" by simp
  with m 5 show ?thesis by blast
qed

section \<open>Registration with an email that is taken\<close>

text \<open>
  C5, as it is stated, fails for a request that names a stored email and leaves out the
  name (or the password): the handler checks the three fields first and answers 400,
  not 409. The store is left as it was.
\<close>

theorem register_existing_email_counterexample:
  "email eve_record = Some (JStr ''eve@x.org'')
   \<and> post_register 1700000000123 False (store_of [eve_record])
        [(''email'', JStr ''eve@x.org''), (''password'', JStr ''pw'')]
       = (store_of [eve_record], \<lparr>status = 400, body = Failure MissingInfo\<rparr>, None)"
  by (simp add: ex_defs js_defs model_defs)

text \<open>
  C5, amended. A \<^verbatim>\<open>POST /api/register\<close> whose email is the email (a string) of a stored
  record leaves the file system as it was, so no second record with that email is
  created and the file is not written; the answer is 409 when name, email and password
  are all non-empty, and 400 when one of them is missing or empty.
\<close>

theorem register_existing_email:
  assumes "u \<in> set (stored s)"
    and "email u = Some (JStr e)"
    and "field b ''email'' = Some (JStr e)"
  shows "fst (post_register now login_err s b) = s
       \<and> status (fst (snd (post_register now login_err s b)))
           = (if truthy (field b ''name'') \<and> e \<noteq> [] \<and> truthy (field b ''password'')
              then 409 else 400)"
proof -
  from assms(1,2) have "list_ex (\<lambda>u. strict_eq (email u) (Some (JStr e))) (stored s)"
    unfolding list_ex_iff by (intro bexI[of _ u]) simp_all
  with assms(3) show ?thesis
    by (simp add: post_register_def stored_mem_readUsers[OF assms(1)])
qed

theorem register_existing_email_witness:
  "eve_record \<in> set (stored (store_of [eve_record]))
   \<and> post_register 1700000000123 False (store_of [eve_record])
        [(''name'', JStr ''Eve2''), (''email'', JStr ''eve@x.org''), (''password'', JStr ''x'')]
       = (store_of [eve_record], \<lparr>status = 409, body = Failure EmailExists\<rparr>, None)"
proof -
  let ?s = "store_of [eve_record]"
  let ?b = "[(''name'', JStr ''Eve2''), (''email'', JStr ''eve@x.org''), (''password'', JStr ''x'')]"
  have m: "eve_record \<in> set (stored ?s)"
    by (simp add: stored_def store_of_def reparse_user_def eve_record_def)
  have e: "email eve_record = Some (JStr ''eve@x.org'')"
    by (simp add: eve_record_def)
  have f: "field ?b ''email'' = Some (JStr ''eve@x.org'')"
    by (simp add: field_def)
  from register_existing_email[OF m e f, of 1700000000123 False]
  have 1: "fst (post_register 1700000000123 False ?s ?b) = ?s"
    and 2: "status (fst (snd (post_register 1700000000123 False ?s ?b))) = 409"
    by (simp_all add: field_def)
  have 3: "body (fst (snd (post_register 1700000000123 False ?s ?b))) = Failure EmailExists"
    and 4: "snd (snd (post_register 1700000000123 False ?s ?b)) = None"
    by (simp_all add: ex_defs js_defs model_defs)
  have "post_register 1700000000123 False ?s ?b
          = (?s, \<lparr>status = 409, body = Failure EmailExists\<rparr>, None)"
    using 1 2 3 4 by (cases "post_register 1700000000123 False ?s ?b") auto
  with m show ?thesis by blast
qed

section \<open>What \<^verbatim>\<open>getOrCreateUserRecord\<close> returns\<close>





section \<open>Checkout of a non-empty cart\<close>

text \<open>
  C7. When the identity of an authenticated session resolves to a record whose cart is a
  non-empty array, \<^verbatim>\<open>POST /api/checkout\<close> answers 200 with the order identifier
  \<^verbatim>\<open>'ORD-'\<close> followed by the decimal clock value, which matches \<^verbatim>\<open>ORD-<digits>\<close>. The
  record is one of the store, the persisted store afterwards is the old one with that
  record's cart replaced by the empty array, and resolving the same identity again
  gives the record with the empty cart.
\<close>

theorem checkout_nonempty_cart:
  assumes "truthy req_user"
    and "snd (getOrCreateUserRecord now s req_user) = Inr r"
    and "cart (user r) = Some (JArr (x # xs))"
  shows "status (snd (post_checkout now s req_user)) = 200
       \<and> body (snd (post_checkout now s req_user))
           = OrderBody (''ORD-'' @ string_of_nat now) CheckoutDone
       \<and> order_id_pattern (''ORD-'' @ string_of_nat now)
       \<and> index r < length (stored s) \<and> stored s ! index r = user r
       \<and> stored (fst (post_checkout now s req_user))
           = (stored s)[index r := (user r)\<lparr>cart := Some (JArr [])\<rparr>]
       \<and> snd (getOrCreateUserRecord now' (fst (post_checkout now s req_user)) req_user)
           = Inr \<lparr>user = (user r)\<lparr>cart := Some (JArr [])\<rparr>,
                  users = (stored s)[index r := (user r)\<lparr>cart := Some (JArr [])\<rparr>],
                  index = index r\<rparr>"
proof (cases rule: getOrCreate_cases[of s req_user now])
  case (created i0)
  with assms(2) have "user r = newRec i0 (profile_of req_user)" by auto
  with assms(3) show ?thesis by (simp add: newRec_def)
next
  case threw
  with assms(2) show ?thesis by simp
next
  case (found i)
  let ?us = "stored s"
  let ?us' = "?us[i := (?us ! i)\<lparr>cart := Some (JArr [])\<rparr>]"
  note i = found(2)
  from found(3) assms(2)
  have r: "r = \<lparr>user = ?us ! i, users = ?us, index = i\<rparr>" by simp
  with assms(3) have c: "cart (?us ! i) = Some (JArr (x # xs))" by simp
  have co: "post_checkout now s req_user
              = (writeUsers ?us' s,
                 \<lparr>status = 200, body = OrderBody (''ORD-'' @ string_of_nat now) CheckoutDone\<rparr>)"
    by (simp add: post_checkout_found[OF assms(1) found(1)] c js_or_def string_of_nat_zero)
  have st: "stored (writeUsers ?us' s) = ?us'"
    using i by (simp add: stored_writeUsers stored_update_cart_stable)
  have "lookup_idx (stored (writeUsers ?us' s)) (profile_of req_user) = Inr (Some i)"
    using found(1) i by (simp add: st lookup_idx_update_cart)
  from getOrCreate_found[OF this, of now']
  have "snd (getOrCreateUserRecord now' (writeUsers ?us' s) req_user)
          = Inr \<lparr>user = ?us' ! i, users = ?us', index = i\<rparr>"
    by (simp add: st)
  with co r i order_id_pattern_ORD[of now] show ?thesis
    by (simp add: st)
qed

theorem checkout_nonempty_cart_witness:
  "truthy ann_identity
   \<and> post_checkout 1700000000123 (store_of [eve_record, ann_record (Some (JArr [one_item]))])
         ann_identity
       = (\<lparr>users_json = Users [eve_record, ann_record (Some (JArr []))], writes = 1\<rparr>,
          \<lparr>status = 200, body = OrderBody ''ORD-1700000000123'' CheckoutDone\<rparr>)
   \<and> order_id_pattern ''ORD-1700000000123''"
proof -
  let ?s = "store_of [eve_record, ann_record (Some (JArr [one_item]))]"
  let ?r = "\<lparr>user = ann_record (Some (JArr [one_item])),
             users = [eve_record, ann_record (Some (JArr [one_item]))], index = 1\<rparr>"
  have t: "truthy ann_identity"
    by (simp add: ex_defs)
  have g: "snd (getOrCreateUserRecord 1700000000123 ?s ann_identity) = Inr ?r"
    by (simp add: ex_defs js_defs model_defs string_of_nat_zero)
  have c: "cart (user ?r) = Some (JArr [one_item])"
    by (simp add: ex_defs)
  have n: "''ORD-'' @ string_of_nat 1700000000123 = ''ORD-1700000000123''"
    by (simp add: string_of_nat.simps digit_char_def)
  have e: "post_checkout 1700000000123 ?s ann_identity
             = (\<lparr>users_json = Users [eve_record, ann_record (Some (JArr []))], writes = 1\<rparr>,
                \<lparr>status = 200, body = OrderBody ''ORD-1700000000123'' CheckoutDone\<rparr>)"
    by (simp add: ex_defs js_defs model_defs string_of_nat.simps digit_char_def)
  from checkout_nonempty_cart[OF t g c, of 0]
  have "order_id_pattern (''ORD-'' @ string_of_nat 1700000000123)" by blast
  with t e show ?thesis unfolding n by blast
qed

section \<open>The cart round trip\<close>

text \<open>
  C8, as it is stated, fails in three ways. For an identity whose profile has neither an
  id nor an email, \<^verbatim>\<open>getOrCreateUserRecord\<close> cannot find the record it created for the
  \<^verbatim>\<open>POST\<close>, creates another one for the \<^verbatim>\<open>GET\<close>, and the \<^verbatim>\<open>GET\<close> returns the
  empty cart of that one. For a cart that holds a number that is not finite (the body
  \<^verbatim>\<open>{"cart": [1e400]}\<close> is parsed to \<^verbatim>\<open>[Infinity]\<close>), the file holds \<^verbatim>\<open>[null]\<close>, which
  is what the \<^verbatim>\<open>GET\<close> returns. For an identity whose id cannot be made a string, the
  \<^verbatim>\<open>POST\<close> is answered 500 and nothing is written.
\<close>

theorem cart_round_trip_counterexample:
  "truthy keyless_identity
   \<and> field [(''cart'', JArr [one_item])] ''cart'' = Some (JArr [one_item])
   \<and> snd (post_cart 1700000000123 empty_store keyless_identity [(''cart'', JArr [one_item])])
       = \<lparr>status = 200, body = CartBody (Some (JArr [one_item]))\<rparr>
   \<and> snd (get_cart 1700000000456
              (fst (post_cart 1700000000123 empty_store keyless_identity
                      [(''cart'', JArr [one_item])]))
              keyless_identity)
       = \<lparr>status = 200, body = CartBody (Some (JArr []))\<rparr>
   \<and> truthy ann_identity
   \<and> snd (post_cart 1700000000123 empty_store ann_identity
              [(''cart'', JArr [JNum ''Infinity''])])
       = \<lparr>status = 200, body = CartBody (Some (JArr [JNum ''Infinity'']))\<rparr>
   \<and> snd (get_cart 1700000000456
              (fst (post_cart 1700000000123 empty_store ann_identity
                      [(''cart'', JArr [JNum ''Infinity''])]))
              ann_identity)
       = \<lparr>status = 200, body = CartBody (Some (JArr [JNull]))\<rparr>
   \<and> truthy odd_identity
   \<and> post_cart 1700000000123 empty_store odd_identity [(''cart'', JArr [one_item])]
       = (empty_store, \<lparr>status = 500, body = Failure CartServerError\<rparr>)"
  by (simp add: keyless_identity_def odd_identity_def ex_defs js_defs model_defs
      string_of_nat.simps digit_char_def)

text \<open>
  C8, amended. Take an authenticated session whose identity has a non-empty id or a
  non-empty primitive email and resolves to a record, and an array \<open>c\<close>.
  \<^verbatim>\<open>POST /api/cart\<close> with the body \<^verbatim>\<open>{cart: c}\<close> answers 200 with \<open>c\<close>, and a
  \<^verbatim>\<open>GET /api/cart\<close> of the same identity after it answers 200 with \<open>c\<close> as it is read
  back from the file, and leaves the file system as it is. That is \<open>c\<close> with each number
  that is not finite replaced by \<^verbatim>\<open>null\<close>: the same array \<open>c\<close> when all its numbers are
  finite.
\<close>

theorem cart_round_trip:
  assumes "truthy req_user" and "identifiable req_user"
    and "snd (getOrCreateUserRecord now s req_user) = Inr r"
    and "field b ''cart'' = Some (JArr c)"
  shows "snd (post_cart now s req_user b) = \<lparr>status = 200, body = CartBody (Some (JArr c))\<rparr>
       \<and> get_cart now' (fst (post_cart now s req_user b)) req_user
           = (fst (post_cart now s req_user b),
              \<lparr>status = 200, body = CartBody (Some (JArr (map reparse c)))\<rparr>)
       \<and> (if reparse (JArr c) = JArr c
           then snd (get_cart now' (fst (post_cart now s req_user b)) req_user)
                  = \<lparr>status = 200, body = CartBody (Some (JArr c))\<rparr>
           else snd (get_cart now' (fst (post_cart now s req_user b)) req_user)
                  \<noteq> \<lparr>status = 200, body = CartBody (Some (JArr c))\<rparr>)"
proof -
  let ?p = "profile_of req_user"
  have nc: "newCart b = Some (JArr c)"
    using assms(4) by (simp add: newCart_def)
  have main: "snd (post_cart now s req_user b)
                = \<lparr>status = 200, body = CartBody (Some (JArr c))\<rparr>
       \<and> get_cart now' (fst (post_cart now s req_user b)) req_user
           = (fst (post_cart now s req_user b),
              \<lparr>status = 200, body = CartBody (Some (JArr (map reparse c)))\<rparr>)"
  proof (cases rule: getOrCreate_cases[of s req_user now])
    case (created i0)
    let ?us' = "stored s @ [reparse_user ((newRec i0 ?p)\<lparr>cart := newCart b\<rparr>)]"
    from assms(2) have "lookup_idx ?us' ?p = Inr (Some (length (stored s)))"
      by (intro lookup_idx_snoc_new[OF created(1,2)]) (simp add: identifiable_def)
    then have "lookup_idx (stored (fst (post_cart now s req_user b))) ?p
                 = Inr (Some (length (stored s)))"
      by (simp add: post_cart_created[OF assms(1) created(1,2)] stored_writeUsers stored_stable)
    from get_cart_found[OF assms(1) this, of now']
    show ?thesis
      by (simp add: post_cart_created[OF assms(1) created(1,2)] stored_writeUsers stored_stable
          reparse_user_cart nc js_or_def)
  next
    case (found i)
    let ?w = "writeUsers ((stored s)[i := (stored s ! i)\<lparr>cart := newCart b\<rparr>]) s"
    let ?us' = "(stored s)[i := (stored s ! i)\<lparr>cart := Some (JArr (map reparse c))\<rparr>]"
    note i = found(2)
    have pc: "post_cart now s req_user b
                = (?w, \<lparr>status = 200, body = CartBody (Some (JArr c))\<rparr>)"
      by (simp add: post_cart_found[OF assms(1) found(1)] nc)
    have st: "stored ?w = ?us'"
      using i by (simp add: stored_writeUsers stored_update_cart_stable nc)
    have "lookup_idx ?us' ?p = Inr (Some i)"
      using found(1) i by (simp add: lookup_idx_update_cart)
    then have "lookup_idx (stored ?w) ?p = Inr (Some i)"
      by (simp only: st)
    from get_cart_found[OF assms(1) this, of now']
    have "get_cart now' ?w req_user
            = (?w, \<lparr>status = 200, body = CartBody (js_or (cart (?us' ! i)) (Some (JArr [])))\<rparr>)"
      by (simp only: st)
    with i have "get_cart now' ?w req_user
            = (?w, \<lparr>status = 200, body = CartBody (Some (JArr (map reparse c)))\<rparr>)"
      by (simp add: js_or_def)
    with pc show ?thesis by simp
  next
    case threw
    with assms(3) show ?thesis by simp
  qed
  then show ?thesis by simp
qed

theorem cart_round_trip_witness:
  "truthy ann_identity \<and> identifiable ann_identity
   \<and> field [(''cart'', JArr [one_item])] ''cart'' = Some (JArr [one_item])
   \<and> snd (get_cart 1700000000456
              (fst (post_cart 1700000000123 empty_store ann_identity [(''cart'', JArr [one_item])]))
              ann_identity)
       = \<lparr>status = 200, body = CartBody (Some (JArr [one_item]))\<rparr>"
proof -
  let ?b = "[(''cart'', JArr [one_item])]"
  let ?r = "\<lparr>user = ann_record (Some (JArr [])), users = [ann_record (Some (JArr []))],
             index = 0\<rparr>"
  have t: "truthy ann_identity"
    by (simp add: ex_defs)
  have i: "identifiable ann_identity"
    by (simp add: identifiable_def primitive_def ex_defs js_defs model_defs)
  have g: "snd (getOrCreateUserRecord 1700000000123 empty_store ann_identity) = Inr ?r"
    by (simp add: ex_defs js_defs model_defs)
  have f: "field ?b ''cart'' = Some (JArr [one_item])"
    by (simp add: field_def)
  have st: "reparse (JArr [one_item]) = JArr [one_item]"
    by (simp add: one_item_def)
  from cart_round_trip[OF t i g f, where now' = 1700000000456]
  have "if reparse (JArr [one_item]) = JArr [one_item]
        then snd (get_cart 1700000000456
                    (fst (post_cart 1700000000123 empty_store ann_identity ?b)) ann_identity)
               = \<lparr>status = 200, body = CartBody (Some (JArr [one_item]))\<rparr>
        else snd (get_cart 1700000000456
                    (fst (post_cart 1700000000123 empty_store ann_identity ?b)) ann_identity)
               \<noteq> \<lparr>status = 200, body = CartBody (Some (JArr [one_item]))\<rparr>"
    by blast
  then
  have "snd (get_cart 1700000000456 (fst (post_cart 1700000000123 empty_store ann_identity ?b))
               ann_identity)
          = \<lparr>status = 200, body = CartBody (Some (JArr [one_item]))\<rparr>"
    unfolding st by simp
  with t i f show ?thesis by blast
qed

section \<open>A cart that is not an array\<close>

text \<open>
  C9. For an authenticated session whose identity resolves to a record, a
  \<^verbatim>\<open>POST /api/cart\<close> whose \<^verbatim>\<open>cart\<close> is not an array, or is absent, is answered 200
  with the empty cart, whatever the value is: the store that is written has the empty
  array as the cart of the resolved record, and the other records as they were.
\<close>

theorem post_cart_non_array:
  assumes "truthy req_user" and "\<not> isArray (field b ''cart'')"
    and "snd (getOrCreateUserRecord now s req_user) = Inr r"
  shows "post_cart now s req_user b
           = (writeUsers ((users r)[index r := (user r)\<lparr>cart := Some (JArr [])\<rparr>])
                (fst (getOrCreateUserRecord now s req_user)),
              \<lparr>status = 200, body = CartBody (Some (JArr []))\<rparr>)
       \<and> index r < length (stored (fst (post_cart now s req_user b)))
       \<and> cart (stored (fst (post_cart now s req_user b)) ! index r) = Some (JArr [])
       \<and> stored (fst (post_cart now s req_user b))
           = (stored (fst (getOrCreateUserRecord now s req_user)))
               [index r := (stored (fst (getOrCreateUserRecord now s req_user)) ! index r)
                             \<lparr>cart := Some (JArr [])\<rparr>]"
proof -
  have nc: "newCart b = Some (JArr [])"
    using assms(2) by (simp add: newCart_def)
  show ?thesis
  proof (cases rule: getOrCreate_cases[of s req_user now])
    case (found i)
    with assms(3) have r: "r = \<lparr>user = stored s ! i, users = stored s, index = i\<rparr>" by simp
    from found(2) show ?thesis
      by (simp add: r found(3) post_cart_found[OF assms(1) found(1)] nc stored_writeUsers
          stored_update_cart_stable)
  next
    case (created i0)
    with assms(3)
    have r: "r = \<lparr>user = newRec i0 (profile_of req_user),
                   users = stored s @ [newRec i0 (profile_of req_user)],
                   index = length (stored s)\<rparr>"
      by simp
    show ?thesis
      by (simp add: r created(3) post_cart_created[OF assms(1) created(1,2)] nc
          stored_writeUsers stored_stable reparse_user_cart)
  next
    case threw
    with assms(3) show ?thesis by simp
  qed
qed

theorem post_cart_non_array_witness:
  "truthy ann_identity
   \<and> \<not> isArray (field [(''cart'', JStr ''oops'')] ''cart'')
   \<and> post_cart 1700000000123 (store_of [eve_record, ann_record (Some (JArr [one_item]))])
         ann_identity [(''cart'', JStr ''oops'')]
       = (\<lparr>users_json = Users [eve_record, ann_record (Some (JArr []))], writes = 1\<rparr>,
          \<lparr>status = 200, body = CartBody (Some (JArr []))\<rparr>)"
proof -
  let ?s = "store_of [eve_record, ann_record (Some (JArr [one_item]))]"
  let ?b = "[(''cart'', JStr ''oops'')]"
  let ?r = "\<lparr>user = ann_record (Some (JArr [one_item])),
             users = [eve_record, ann_record (Some (JArr [one_item]))], index = 1\<rparr>"
  have t: "truthy ann_identity"
    by (simp add: ex_defs)
  have n: "\<not> isArray (field ?b ''cart'')"
    by (simp add: field_def)
  have g: "getOrCreateUserRecord 1700000000123 ?s ann_identity = (?s, Inr ?r)"
    by (simp add: ex_defs js_defs model_defs string_of_nat_zero)
  then have g': "snd (getOrCreateUserRecord 1700000000123 ?s ann_identity) = Inr ?r"
    by simp
  from post_cart_non_array[OF t n g']
  have "post_cart 1700000000123 ?s ann_identity ?b
          = (writeUsers ((users ?r)[index ?r := (user ?r)\<lparr>cart := Some (JArr [])\<rparr>]) ?s,
             \<lparr>status = 200, body = CartBody (Some (JArr []))\<rparr>)"
    unfolding g by simp
  then have "post_cart 1700000000123 ?s ann_identity ?b
          = (\<lparr>users_json = Users [eve_record, ann_record (Some (JArr []))], writes = 1\<rparr>,
             \<lparr>status = 200, body = CartBody (Some (JArr []))\<rparr>)"
    by (simp add: ex_defs writeUsers_def)
  with t n show ?thesis by blast
qed

section \<open>Records with an empty password\<close>

text \<open>
  C10, as it is stated, fails for the records that \<^verbatim>\<open>getOrCreateUserRecord\<close> creates
  for a profile without an email: their email is the empty string (line 111). A login
  that names that email with a non-empty password is answered 400, not 401, because the
  empty email counts as a missing field. Here the record is the one created for a
  Discord identity with an id and no email.
\<close>

theorem login_empty_email_counterexample:
  "stored (fst (get_cart 1700000000123 empty_store bob_identity)) = [bob_record]
   \<and> email bob_record = Some (JStr [])
   \<and> password bob_record = Some (JStr [])
   \<and> post_login False (store_of [bob_record])
        [(''email'', JStr []), (''password'', JStr ''guess'')]
       = (store_of [bob_record], \<lparr>status = 400, body = Failure MissingInfo\<rparr>, None)"
  by (simp add: bob_identity_def bob_record_def ex_defs js_defs model_defs)

text \<open>
  C10, amended. Let a stored record have the empty string as its password (as the
  records that \<^verbatim>\<open>getOrCreateUserRecord\<close> creates have). No \<^verbatim>\<open>POST /api/login\<close> is
  answered with that record. A request whose password or email is empty or missing is
  answered 400 before the file is read. A request with a non-empty email and a non-empty
  password is never matched by that record; it is answered 401 when it names the
  record's email and each non-empty primitive email occurs in at most one record of the
  store.
\<close>

theorem login_empty_password:
  assumes "u \<in> set (stored s)" and "password u = Some (JStr [])"
  shows "body (fst (snd (post_login login_err s b))) \<noteq> UserBody u
       \<and> (\<not> truthy (field b ''password'') \<or> \<not> truthy (field b ''email'')
            \<longrightarrow> post_login login_err s b
                 = (s, \<lparr>status = 400, body = Failure MissingInfo\<rparr>, None))
       \<and> (truthy (field b ''password'')
            \<longrightarrow> \<not> strict_eq (password u) (field b ''password''))
       \<and> (truthy (field b ''email'') \<and> truthy (field b ''password'')
            \<and> strict_eq (email u) (field b ''email'') \<and> unique_emails (stored s)
            \<longrightarrow> status (fst (snd (post_login login_err s b))) = 401)"
proof (intro conjI impI)
  show "body (fst (snd (post_login login_err s b))) \<noteq> UserBody u"
  proof
    assume a: "body (fst (snd (post_login login_err s b))) = UserBody u"
    then have t: "truthy (field b ''password'')"
      by (auto simp: post_login_cases split: if_splits option.splits)
    from a have "find (\<lambda>u. strict_eq (email u) (field b ''email'')
                         \<and> strict_eq (password u) (field b ''password'')) (stored s) = Some u"
      by (auto simp: post_login_cases split: if_splits option.splits)
    then have "strict_eq (password u) (field b ''password'')"
      by (auto simp: find_Some_iff)
    with assms(2) t show False
      by (auto dest: strict_eq_truthy)
  qed
next
  assume "\<not> truthy (field b ''password'') \<or> \<not> truthy (field b ''email'')"
  then show "post_login login_err s b = (s, \<lparr>status = 400, body = Failure MissingInfo\<rparr>, None)"
    by (auto simp: post_login_cases)
next
  assume "truthy (field b ''password'')"
  with assms(2) show "\<not> strict_eq (password u) (field b ''password'')"
    by (auto dest: strict_eq_truthy)
next
  assume a: "truthy (field b ''email'') \<and> truthy (field b ''password'')
            \<and> strict_eq (email u) (field b ''email'') \<and> unique_emails (stored s)"
  then have eu: "email u = field b ''email''" by (auto dest: strict_eq_imp_eq)
  with a have tu: "truthy (email u)" and pu: "primitive (email u)"
    by (simp_all add: primitive_def)
  have "\<not> credentials_match s b"
  proof
    assume "credentials_match s b"
    then obtain v where v: "v \<in> set (stored s)" "strict_eq (email v) (field b ''email'')"
      "strict_eq (password v) (field b ''password'')"
      by (auto simp: credentials_match_def list_ex_iff)
    from v(2) eu have "email u = email v" by (auto dest: strict_eq_imp_eq)
    with a assms(1) v(1) tu pu have "u = v" by (intro unique_emails_same[of "stored s" u v]) auto
    with v(3) assms(2) a show False by (auto dest: strict_eq_truthy)
  qed
  with a show "status (fst (snd (post_login login_err s b))) = 401"
    by (simp add: post_login_status)
qed

theorem login_empty_password_witness:
  "ann_record (Some (JArr [])) \<in> set (stored (store_of [eve_record, ann_record (Some (JArr []))]))
   \<and> unique_emails (stored (store_of [eve_record, ann_record (Some (JArr []))]))
   \<and> status (fst (snd (post_login False (store_of [eve_record, ann_record (Some (JArr []))])
         [(''email'', JStr ''ann@x.org''), (''password'', JStr ''guess'')]))) = 401
   \<and> status (fst (snd (post_login False (store_of [eve_record, ann_record (Some (JArr []))])
         [(''email'', JStr ''ann@x.org''), (''password'', JStr [])]))) = 400"
proof -
  let ?u = "ann_record (Some (JArr []))"
  let ?s = "store_of [eve_record, ?u]"
  let ?g = "[(''email'', JStr ''ann@x.org''), (''password'', JStr ''guess'')]"
  let ?e = "[(''email'', JStr ''ann@x.org''), (''password'', JStr [])]"
  have m: "?u \<in> set (stored ?s)"
    by (simp add: stored_def store_of_def reparse_user_def ann_record_def)
  have p: "password ?u = Some (JStr [])"
    by (simp add: ann_record_def)
  have q: "unique_emails (stored ?s)"
    by (simp add: unique_emails_def primitive_email_def primitive_def stored_def
        reparse_user_def ex_defs)
  have h: "truthy (field ?g ''email'') \<and> truthy (field ?g ''password'')
           \<and> strict_eq (email ?u) (field ?g ''email'')"
    by (simp add: ann_record_def field_def)
  have f: "\<not> truthy (field ?e ''password'')"
    by (simp add: field_def)
  from login_empty_password[OF m p, of False ?g] q h
  have 1: "status (fst (snd (post_login False ?s ?g))) = 401" by blast
  from login_empty_password[OF m p, of False ?e] f
  have "post_login False ?s ?e = (?s, \<lparr>status = 400, body = Failure MissingInfo\<rparr>, None)"
    by blast
  then have 2: "status (fst (snd (post_login False ?s ?e))) = 400" by simp
  from m q 1 2 show ?thesis by blast
qed

end
